theory Spec2Isabelle
  imports Complex_Main "HOL-Library.Sublist" "HOL-Library.AList"
begin

section \<open>Strings as Python sees them\<close>

text \<open>
  A Python \<open>str\<close> is modelled as a \<open>string\<close> whose characters are the code points
  below 256. \<open>is_space\<close> is the set of those code points for which \<open>str.isspace\<close> holds;
  \<open>str.strip()\<close> and the regular-expression class \<open>\s\<close> both use it.
\<close>

definition is_space :: "char \<Rightarrow> bool" where
  "is_space c = (c \<in> set [CHR 0x09, CHR 0x0A, CHR 0x0B, CHR 0x0C, CHR 0x0D,
                            CHR 0x1C, CHR 0x1D, CHR 0x1E, CHR 0x1F, CHR 0x20,
                            CHR 0x85, CHR 0xA0])"

definition lstrip :: "string \<Rightarrow> string" where
  "lstrip s = dropWhile is_space s"

definition rstrip :: "string \<Rightarrow> string" where
  "rstrip s = rev (dropWhile is_space (rev s))"

definition strip :: "string \<Rightarrow> string" where
  "strip s = rstrip (lstrip s)"

definition startswith :: "string \<Rightarrow> string \<Rightarrow> bool" where
  "startswith s p = (take (length p) s = p)"

definition endswith :: "string \<Rightarrow> string \<Rightarrow> bool" where
  "endswith s p = (length p \<le> length s \<and> drop (length s - length p) s = p)"

text \<open>\<open>str.lower()\<close> on code points below 256: the upper-case letters and their images.\<close>

definition upper_chars :: "char list" where
  "upper_chars = ''ABCDEFGHIJKLMNOPQRSTUVWXYZ'' @
     [CHR 0xC0, CHR 0xC1, CHR 0xC2, CHR 0xC3, CHR 0xC4, CHR 0xC5, CHR 0xC6, CHR 0xC7,
      CHR 0xC8, CHR 0xC9, CHR 0xCA, CHR 0xCB, CHR 0xCC, CHR 0xCD, CHR 0xCE, CHR 0xCF,
      CHR 0xD0, CHR 0xD1, CHR 0xD2, CHR 0xD3, CHR 0xD4, CHR 0xD5, CHR 0xD6,
      CHR 0xD8, CHR 0xD9, CHR 0xDA, CHR 0xDB, CHR 0xDC, CHR 0xDD, CHR 0xDE]"

definition lower_chars :: "char list" where
  "lower_chars = ''abcdefghijklmnopqrstuvwxyz'' @
     [CHR 0xE0, CHR 0xE1, CHR 0xE2, CHR 0xE3, CHR 0xE4, CHR 0xE5, CHR 0xE6, CHR 0xE7,
      CHR 0xE8, CHR 0xE9, CHR 0xEA, CHR 0xEB, CHR 0xEC, CHR 0xED, CHR 0xEE, CHR 0xEF,
      CHR 0xF0, CHR 0xF1, CHR 0xF2, CHR 0xF3, CHR 0xF4, CHR 0xF5, CHR 0xF6,
      CHR 0xF8, CHR 0xF9, CHR 0xFA, CHR 0xFB, CHR 0xFC, CHR 0xFD, CHR 0xFE]"

definition lower_char :: "char \<Rightarrow> char" where
  "lower_char c = (case map_of (zip upper_chars lower_chars) c of Some d \<Rightarrow> d | None \<Rightarrow> c)"

definition lower :: "string \<Rightarrow> string" where
  "lower s = map lower_char s"

section \<open>NewsItem\<close>

text \<open>
  Modelled from the spec: the class \<open>NewsItem\<close> of \<open>app.models.news\<close>, which is not among
  the sources. Section 3 of the specification gives its fields. The category is kept as
  the string the services pass for it; \<open>tags\<close> is a sequence of strings.
\<close>

record news_item =
  category :: string
  title :: string
  publisher :: string
  published_date :: string
  url :: string
  summary :: string
  why_it_matters :: string
  tags :: "string list"

section \<open>Python values and the operations the services apply to them\<close>

text \<open>
  What \<open>json.loads\<close> can return. A Python \<open>float\<close> is a rational or one of the three
  non-finite values; a \<open>dict\<close> is the list of its items in insertion order.
\<close>

datatype pyfloat = Finite rat | PosInf | NegInf | NaN

datatype json =
    JNull
  | JBool bool
  | JInt int
  | JFloat pyfloat
  | JStr string
  | JArr "json list"
  | JObj "(string \<times> json) list"

text \<open>
  Exceptions. The handlers of the services catch \<open>Exception\<close> and do not look at the
  exception they caught.
\<close>

datatype exn =
    NetworkError
  | JSONDecodeError
  | AttributeError
  | TypeError
  | KeyError
  | ValidationError

text \<open>The answer of one model call: the text, or the exception \<open>ainvoke\<close> raised.\<close>

type_synonym response = "exn + string"

definition bindE :: "exn + 'a \<Rightarrow> ('a \<Rightarrow> exn + 'b) \<Rightarrow> exn + 'b" where
  "bindE m f = (case m of Inl e \<Rightarrow> Inl e | Inr v \<Rightarrow> f v)"

text \<open>\<open>try: body  except Exception as e: handler\<close>\<close>

definition try_except :: "exn + 'a \<Rightarrow> (exn \<Rightarrow> exn + 'a) \<Rightarrow> exn + 'a" where
  "try_except body handler = (case body of Inl e \<Rightarrow> handler e | Inr v \<Rightarrow> Inr v)"

text \<open>\<open>json.loads\<close> is a library function: the parameter \<open>loads\<close>, \<open>None\<close> where it raises.\<close>

definition json_loads :: "(string \<Rightarrow> json option) \<Rightarrow> string \<Rightarrow> exn + json" where
  "json_loads loads s = (case loads s of None \<Rightarrow> Inl JSONDecodeError | Some v \<Rightarrow> Inr v)"

text \<open>Truth value of an object, as \<open>if x\<close> and \<open>not x\<close> test it.\<close>

fun truthy :: "json \<Rightarrow> bool" where
  "truthy JNull = False"
| "truthy (JBool b) = b"
| "truthy (JInt n) = (n \<noteq> 0)"
| "truthy (JFloat f) = (f \<noteq> Finite 0)"
| "truthy (JStr s) = (s \<noteq> [])"
| "truthy (JArr xs) = (xs \<noteq> [])"
| "truthy (JObj kvs) = (kvs \<noteq> [])"

text \<open>\<open>x.get(k, d)\<close>: only a \<open>dict\<close> has the method.\<close>

fun py_get :: "json \<Rightarrow> string \<Rightarrow> json \<Rightarrow> exn + json" where
  "py_get (JObj kvs) k d = Inr (case map_of kvs k of Some v \<Rightarrow> v | None \<Rightarrow> d)"
| "py_get _ k d = Inl AttributeError"

text \<open>\<open>x.items()\<close>\<close>

fun py_items :: "json \<Rightarrow> exn + (string \<times> json) list" where
  "py_items (JObj kvs) = Inr kvs"
| "py_items _ = Inl AttributeError"

text \<open>\<open>for v in x\<close>: a list gives its elements, a string its characters, a dict its keys.\<close>

fun py_iter :: "json \<Rightarrow> exn + json list" where
  "py_iter (JArr xs) = Inr xs"
| "py_iter (JStr s) = Inr (map (\<lambda>c. JStr [c]) s)"
| "py_iter (JObj kvs) = Inr (map (\<lambda>kv. JStr (fst kv)) kvs)"
| "py_iter _ = Inl TypeError"

text \<open>\<open>xs[:n]\<close> on a sequence; a negative \<open>n\<close> counts from the end.\<close>

definition slice_to :: "'a list \<Rightarrow> int \<Rightarrow> 'a list" where
  "slice_to xs n = (if 0 \<le> n then take (nat n) xs else take (length xs - nat (- n)) xs)"

fun py_slice_to :: "json \<Rightarrow> int \<Rightarrow> exn + json" where
  "py_slice_to (JArr xs) n = Inr (JArr (slice_to xs n))"
| "py_slice_to (JStr s) n = Inr (JStr (slice_to s n))"
| "py_slice_to _ n = Inl TypeError"

text \<open>\<open>x.strip()\<close>: only a \<open>str\<close> has the method.\<close>

fun py_strip :: "json \<Rightarrow> exn + string" where
  "py_strip (JStr s) = Inr (strip s)"
| "py_strip _ = Inl AttributeError"

text \<open>\<open>idx >= 0\<close>: defined on numbers (a \<open>bool\<close> is the integer 0 or 1).\<close>

fun py_ge0 :: "json \<Rightarrow> exn + bool" where
  "py_ge0 (JInt n) = Inr (0 \<le> n)"
| "py_ge0 (JBool b) = Inr True"
| "py_ge0 (JFloat (Finite q)) = Inr (0 \<le> q)"
| "py_ge0 (JFloat PosInf) = Inr True"
| "py_ge0 (JFloat NegInf) = Inr False"
| "py_ge0 (JFloat NaN) = Inr False"
| "py_ge0 _ = Inl TypeError"

text \<open>
  The integer a number is equal to as a dictionary key, if any: \<open>1\<close>, \<open>1.0\<close> and \<open>True\<close>
  are the same key.
\<close>

fun int_key :: "json \<Rightarrow> int option" where
  "int_key (JInt n) = Some n"
| "int_key (JBool b) = Some (if b then 1 else 0)"
| "int_key (JFloat (Finite q)) = (if of_int \<lfloor>q\<rfloor> = q then Some \<lfloor>q\<rfloor> else None)"
| "int_key _ = None"

text \<open>\<open>isinstance(idx, int)\<close> and the value of such an index; \<open>bool\<close> is a subclass of \<open>int\<close>.\<close>

fun isinstance_int :: "json \<Rightarrow> bool" where
  "isinstance_int (JInt n) = True"
| "isinstance_int (JBool b) = True"
| "isinstance_int _ = False"

fun int_value :: "json \<Rightarrow> int" where
  "int_value (JInt n) = n"
| "int_value (JBool b) = (if b then 1 else 0)"
| "int_value _ = 0"

text \<open>
  Modelled from the spec: the constructor of \<open>NewsItem\<close> (\<open>app.models.news\<close> is not among the
  sources). The title, the publisher, the date, the url, the summary and the impact note
  are strings (specification, section 3), so a value that is not a string is rejected
  with a validation error. The category and the tags are the strings the services pass.
\<close>

fun as_str :: "json \<Rightarrow> exn + string" where
  "as_str (JStr s) = Inr s"
| "as_str _ = Inl ValidationError"

definition NewsItem ::
  "string \<Rightarrow> json \<Rightarrow> json \<Rightarrow> json \<Rightarrow> json \<Rightarrow> json \<Rightarrow> json \<Rightarrow> string list \<Rightarrow> exn + news_item" where
  "NewsItem c t p d u s w tg =
     bindE (as_str t) (\<lambda>t'.
     bindE (as_str p) (\<lambda>p'.
     bindE (as_str d) (\<lambda>d'.
     bindE (as_str u) (\<lambda>u'.
     bindE (as_str s) (\<lambda>s'.
     bindE (as_str w) (\<lambda>w'.
       Inr \<lparr>category = c, title = t', publisher = p', published_date = d', url = u',
            summary = s', why_it_matters = w', tags = tg\<rparr>))))))"

section \<open>Cleaning a model response before parsing\<close>

text \<open>\<open>re.sub(r'^```(?:json)?\s*', '', s)\<close>: without \<open>re.MULTILINE\<close>, \<open>^\<close> is the start of \<open>s\<close>.\<close>

definition sub_leading_fence :: "string \<Rightarrow> string" where
  "sub_leading_fence s =
     (if startswith s ''```''
      then (let r = drop 3 s in lstrip (if startswith r ''json'' then drop 4 r else r))
      else s)"

text \<open>
  \<open>re.sub(r'\s*```$', '', s)\<close>: \<open>$\<close> is the end of \<open>s\<close>, or the position before a newline
  that ends \<open>s\<close>; the leftmost match starts at the whitespace run before the fence.
\<close>

definition sub_trailing_fence :: "string \<Rightarrow> string" where
  "sub_trailing_fence s =
     (if endswith s ''```'' then rstrip (take (length s - 3) s)
      else if endswith s (''```'' @ [CHR 0x0A]) then rstrip (take (length s - 4) s) @ [CHR 0x0A]
      else s)"

definition clean_fence :: "string \<Rightarrow> string" where
  "clean_fence result =
     (let clean_result = strip result in
      if startswith clean_result ''```''
      then sub_trailing_fence (sub_leading_fence clean_result)
      else clean_result)"

text \<open>
  \<open>re.search(r'\{.*\}', s, re.DOTALL)\<close>: the match starts at the first opening brace and,
  \<open>.*\<close> being greedy, ends at the last closing brace after it.
\<close>

definition search_braces :: "string \<Rightarrow> string option" where
  "search_braces s =
     (let a = dropWhile (\<lambda>c. c \<noteq> CHR ''{'') s in
      if CHR ''}'' \<in> set a then Some (rev (dropWhile (\<lambda>c. c \<noteq> CHR ''}'') (rev a))) else None)"

definition clean_related :: "string \<Rightarrow> string" where
  "clean_related search_result =
     (let clean_result = clean_fence search_result in
      case search_braces clean_result of Some m \<Rightarrow> m | None \<Rightarrow> clean_result)"

text \<open>
  The specification's wording, for comparison: the first balanced \<open>{...}\<close> span. From an
  opening brace the scan counts nesting depth and stops where the depth returns to zero;
  the earliest opening brace that can be closed gives the span.
\<close>

fun balanced_from :: "nat \<Rightarrow> string \<Rightarrow> string option" where
  "balanced_from depth [] = None"
| "balanced_from depth (c # cs) =
     (if c = CHR ''{'' then map_option ((#) c) (balanced_from (Suc depth) cs)
      else if c = CHR ''}'' then
        (if depth = Suc 0 then Some [c] else map_option ((#) c) (balanced_from (depth - 1) cs))
      else map_option ((#) c) (balanced_from depth cs))"

fun first_balanced_span :: "string \<Rightarrow> string option" where
  "first_balanced_span [] = None"
| "first_balanced_span (c # cs) =
     (if c = CHR ''{'' then
        (case balanced_from 0 (c # cs) of Some m \<Rightarrow> Some m | None \<Rightarrow> first_balanced_span cs)
      else first_balanced_span cs)"

section \<open>The Deduplicator\<close>

text \<open>
  \<open>_dedupe_items\<close>: the loop over \<open>items\<close> with its two accumulators \<open>seen_hashes\<close> and
  \<open>unique_items\<close>. The digest \<open>hashlib.md5(...).hexdigest()\<close> is a library function and is
  taken as the parameter \<open>md5\<close>.
\<close>

definition title_key :: "news_item \<Rightarrow> string" where
  "title_key item = take 50 (strip (lower (title item)))"

fun dedupe_loop ::
  "(string \<Rightarrow> 'd) \<Rightarrow> news_item list \<Rightarrow> 'd set \<Rightarrow> news_item list \<Rightarrow> news_item list" where
  "dedupe_loop md5 [] seen_hashes unique_items = unique_items"
| "dedupe_loop md5 (item # items) seen_hashes unique_items =
     (let title_hash = md5 (title_key item) in
      if title_hash \<notin> seen_hashes
      then dedupe_loop md5 items (insert title_hash seen_hashes) (unique_items @ [item])
      else dedupe_loop md5 items seen_hashes unique_items)"

definition dedupe_items :: "(string \<Rightarrow> 'd) \<Rightarrow> news_item list \<Rightarrow> news_item list" where
  "dedupe_items md5 items = dedupe_loop md5 items {} []"

text \<open>
  The specification's wording of the same operation: an item is kept exactly when no
  earlier item of the input has the same fingerprint.
\<close>

definition first_occurrences :: "('a \<Rightarrow> 'k) \<Rightarrow> 'a list \<Rightarrow> 'a list" where
  "first_occurrences f xs =
     map (\<lambda>i. xs ! i) (filter (\<lambda>i. \<forall>j<i. f (xs ! j) \<noteq> f (xs ! i)) [0..<length xs])"

section \<open>Calling a model\<close>

text \<open>
  A chain is a prompt template piped into a model. \<open>chain.ainvoke(inputs)\<close> first formats
  the template with the inputs, and a replacement field of the template that the inputs
  do not name raises \<open>KeyError\<close> there, before any model is asked. Otherwise the result is
  the answer of the model, or the exception its call raised. A template is given by its
  replacement fields in the sense of Python's format strings: \<open>{name}\<close> is a field,
  \<open>{{\<close> and \<open>}}\<close> are braces of the text.
\<close>

definition format_prompt :: "string list \<Rightarrow> string list \<Rightarrow> exn + unit" where
  "format_prompt names inputs = (if set names \<subseteq> set inputs then Inr () else Inl KeyError)"

definition ainvoke :: "string list \<Rightarrow> string list \<Rightarrow> response \<Rightarrow> response" where
  "ainvoke names inputs answer = bindE (format_prompt names inputs) (\<lambda>_. answer)"

text \<open>
  The replacement fields of the prompts. The system messages of the search prompt, of
  the fallback prompt and of the related-search prompt are f-strings that write every
  brace of their text four times, so the template has it twice and the prompt once; the
  system message of the rewrite prompt is a plain string that writes them twice. None of
  these has a field. The fields are those of the user messages.
\<close>

definition search_prompt_fields :: "string list" where
  "search_prompt_fields = [''num_items'', ''category'']"

definition titles_prompt_fields :: "string list" where
  "titles_prompt_fields = [''titles'']"

definition fallback_prompt_fields :: "string list" where
  "fallback_prompt_fields = [''num_items'', ''category'']"

definition related_prompt_fields :: "string list" where
  "related_prompt_fields = [''num_items'', ''topic'']"

text \<open>
  The system message of the ranking prompt is an f-string as well, but it writes the
  braces of its JSON example twice:
  \<^verbatim>\<open>Return JSON: {{"assignments": {{"main-story": [0], "second-story": [1], ...}}, "reasoning": "..."}}\<close>
  so the template has them once. There the text from the first opening brace to the last
  closing brace is one replacement field: its name is \<open>"assignments"\<close>, quotes included,
  and what follows the colon is its format specification. The user message has the
  fields \<open>count\<close> and \<open>news_summary\<close>. The model has the missing input found where the
  prompt is formatted, in the call of the chain, which is inside the \<open>try\<close> block.
\<close>

definition ranking_prompt_fields :: "string list" where
  \<open>ranking_prompt_fields = [''"assignments"'', ''count'', ''news_summary'']\<close>

section \<open>The Fallback Generator\<close>

text \<open>
  \<open>_fetch_ai_generated_news\<close>. \<open>fallback_r\<close> is what the model answers to the prompt; the
  loop body builds one item from one article and appends it when its title is not empty.
\<close>

definition fallback_item :: "string \<Rightarrow> json \<Rightarrow> exn + news_item" where
  "fallback_item cat article =
     bindE (py_get article ''title'' (JStr [])) (\<lambda>title_default.
     bindE (py_get article ''catchy_title'' title_default) (\<lambda>t.
     bindE (py_get article ''publisher'' (JStr ''Industry Source'')) (\<lambda>p.
     bindE (py_get article ''published_date'' (JStr ''2026-01-12'')) (\<lambda>d.
     bindE (py_get article ''url'' (JStr [])) (\<lambda>u.
     bindE (py_get article ''summary'' (JStr [])) (\<lambda>sm.
     bindE (py_get article ''why_it_matters'' (JStr [])) (\<lambda>w.
       NewsItem cat t p d u sm w [cat, ''digital-marketing''])))))))"

fun fallback_loop :: "string \<Rightarrow> json list \<Rightarrow> news_item list \<Rightarrow> exn + news_item list" where
  "fallback_loop cat [] items = Inr items"
| "fallback_loop cat (article # articles) items =
     bindE (fallback_item cat article) (\<lambda>item.
       fallback_loop cat articles (if title item \<noteq> [] then items @ [item] else items))"

definition fetch_ai_generated_news ::
  "(string \<Rightarrow> json option) \<Rightarrow> string \<Rightarrow> int \<Rightarrow> response \<Rightarrow> exn + news_item list" where
  "fetch_ai_generated_news loads cat num_items fallback_r =
     try_except
       (bindE (ainvoke fallback_prompt_fields [''num_items'', ''category''] fallback_r) (\<lambda>result.
        bindE (json_loads loads (clean_fence result)) (\<lambda>data.
        bindE (py_get data ''news'' (JArr [])) (\<lambda>news.
        bindE (py_slice_to news num_items) (\<lambda>sliced.
        bindE (py_iter sliced) (\<lambda>articles.
          fallback_loop cat articles []))))))
       (\<lambda>e. Inr [])"

section \<open>The Category Searcher and the Title Rewriter\<close>

text \<open>
  Step 2 of \<open>fetch_news_with_catchy_titles\<close>: the provenance record of every article,
  keyed by its position, and the projection \<open>{index, title}\<close> sent to the rewriter.
\<close>

fun split_loop ::
  "json list \<Rightarrow> nat \<Rightarrow> json list \<Rightarrow> json list \<Rightarrow> exn + (json list \<times> json list)" where
  "split_loop [] i original_data titles_only = Inr (original_data, titles_only)"
| "split_loop (article # articles) i original_data titles_only =
     bindE (py_get article ''url'' (JStr [])) (\<lambda>u.
     bindE (py_get article ''publisher'' (JStr ''Industry Source'')) (\<lambda>p.
     bindE (py_get article ''published_date'' (JStr ''2026-01-12'')) (\<lambda>d.
     bindE (py_get article ''summary'' (JStr [])) (\<lambda>sm.
     bindE (py_get article ''why_it_matters'' (JStr [])) (\<lambda>w.
     bindE (py_get article ''title'' (JStr [])) (\<lambda>t.
       split_loop articles (Suc i)
         (original_data @ [JObj [(''url'', u), (''publisher'', p), (''published_date'', d),
                                 (''summary'', sm), (''why_it_matters'', w)]])
         (titles_only @ [JObj [(''index'', JInt (int i)), (''title'', t)]])))))))"

text \<open>
  Step 3, first loop: \<open>catchy_map[idx] = item.get("catchy_title", "")\<close> for every entry
  with \<open>idx >= 0\<close>. The map is read at integer positions only, so an entry whose key is
  equal to no integer is never seen again.
\<close>

fun catchy_loop :: "json list \<Rightarrow> (int \<rightharpoonup> json) \<Rightarrow> exn + (int \<rightharpoonup> json)" where
  "catchy_loop [] catchy_map = Inr catchy_map"
| "catchy_loop (item # items) catchy_map =
     bindE (py_get item ''index'' (JInt (- 1))) (\<lambda>idx.
     bindE (py_ge0 idx) (\<lambda>ge.
       if ge then
         bindE (py_get item ''catchy_title'' (JStr [])) (\<lambda>c.
           catchy_loop items (case int_key idx of Some n \<Rightarrow> catchy_map(n \<mapsto> c)
                                                | None \<Rightarrow> catchy_map))
       else catchy_loop items catchy_map))"

text \<open>\<open>original_data.get(i, {})\<close>\<close>

definition original_get :: "json list \<Rightarrow> nat \<Rightarrow> json" where
  "original_get original_data i =
     (if i < length original_data then original_data ! i else JObj [])"

text \<open>Step 3, second loop: one article of \<open>raw_articles[:num_items]\<close> at position \<open>i\<close>.\<close>

definition merge_item ::
  "string \<Rightarrow> json list \<Rightarrow> (int \<rightharpoonup> json) \<Rightarrow> nat \<Rightarrow> json \<Rightarrow> exn + news_item option" where
  "merge_item cat original_data catchy_map i article =
     (let orig = original_get original_data i in
      bindE (py_get orig ''url'' (JStr [])) (\<lambda>u0.
      bindE (py_strip u0) (\<lambda>url0.
        if url0 = [] \<or> url0 = ''https://...'' \<or> url0 = [] then
          bindE (py_get article ''title'' (JStr ''Unknown'')) (\<lambda>_. Inr None)
        else
          (let url1 = (if \<not> startswith url0 ''http'' then ''https://'' @ url0 else url0) in
           bindE (py_get article ''title'' (JStr [])) (\<lambda>t0.
           (let catchy_title = (case catchy_map (int i) of Some c \<Rightarrow> c | None \<Rightarrow> t0) in
            bindE (if truthy catchy_title then Inr catchy_title
                   else py_get article ''title'' (JStr [])) (\<lambda>t.
            bindE (py_get orig ''publisher'' (JStr ''Industry Source'')) (\<lambda>p.
            bindE (py_get orig ''published_date'' (JStr ''2026-01-12'')) (\<lambda>d.
            bindE (py_get orig ''summary'' (JStr [])) (\<lambda>sm.
            bindE (py_get orig ''why_it_matters'' (JStr [])) (\<lambda>w.
            bindE (NewsItem cat t p d (JStr url1) sm w [cat, ''digital-marketing''])
              (\<lambda>item. Inr (Some item)))))))))))))"

fun merge_loop ::
  "string \<Rightarrow> json list \<Rightarrow> (int \<rightharpoonup> json) \<Rightarrow> nat \<Rightarrow> json list \<Rightarrow> news_item list
     \<Rightarrow> exn + news_item list" where
  "merge_loop cat original_data catchy_map i [] items = Inr items"
| "merge_loop cat original_data catchy_map i (article # articles) items =
     bindE (merge_item cat original_data catchy_map i article) (\<lambda>r.
       merge_loop cat original_data catchy_map (Suc i) articles
         (case r of
            None \<Rightarrow> items
          | Some item \<Rightarrow> if title item \<noteq> [] then items @ [item] else items))"

text \<open>
  The body of the \<open>try\<close> block, from the search call to \<open>return items\<close>. The early
  \<open>return await self._fetch_ai_generated_news(...)\<close> sits inside the block as well.
\<close>

definition search_body ::
  "(string \<Rightarrow> json option) \<Rightarrow> string \<Rightarrow> int \<Rightarrow> response \<Rightarrow> response \<Rightarrow> response
     \<Rightarrow> exn + news_item list" where
  "search_body loads cat num_items search_r titles_r fallback_r =
     bindE (ainvoke search_prompt_fields [''num_items'', ''category''] search_r) (\<lambda>search_result.
     bindE (json_loads loads (clean_fence search_result)) (\<lambda>search_data.
     bindE (py_get search_data ''news'' (JArr [])) (\<lambda>raw_articles.
       if \<not> truthy raw_articles
       then fetch_ai_generated_news loads cat num_items fallback_r
       else
         bindE (py_iter raw_articles) (\<lambda>articles.
         bindE (split_loop articles 0 [] []) (\<lambda>(original_data, titles_only).
         bindE (ainvoke titles_prompt_fields [''titles''] titles_r) (\<lambda>titles_result.
         bindE (json_loads loads (clean_fence titles_result)) (\<lambda>titles_data.
         bindE (py_get titles_data ''titles'' (JArr [])) (\<lambda>tl.
         bindE (py_iter tl) (\<lambda>title_items.
         bindE (catchy_loop title_items Map.empty) (\<lambda>catchy_map.
         bindE (py_slice_to raw_articles num_items) (\<lambda>sliced.
         bindE (py_iter sliced) (\<lambda>head_articles.
           merge_loop cat original_data catchy_map 0 head_articles []))))))))))))"

definition fetch_news_with_catchy_titles ::
  "(string \<Rightarrow> json option) \<Rightarrow> string \<Rightarrow> int \<Rightarrow> response \<Rightarrow> response \<Rightarrow> response
     \<Rightarrow> exn + news_item list" where
  "fetch_news_with_catchy_titles loads cat num_items search_r titles_r fallback_r =
     try_except
       (search_body loads cat num_items search_r titles_r fallback_r)
       (\<lambda>e. fetch_ai_generated_news loads cat num_items fallback_r)"

text \<open>
  What the specification asks of the Category Searcher when the rewrite response does
  not parse: the merge of step 3 with an empty \<open>catchy_map\<close>.
\<close>

definition merge_with_original_titles ::
  "(string \<Rightarrow> json option) \<Rightarrow> string \<Rightarrow> int \<Rightarrow> response \<Rightarrow> exn + news_item list" where
  "merge_with_original_titles loads cat num_items search_r =
     bindE search_r (\<lambda>search_result.
     bindE (json_loads loads (clean_fence search_result)) (\<lambda>search_data.
     bindE (py_get search_data ''news'' (JArr [])) (\<lambda>raw_articles.
     bindE (py_iter raw_articles) (\<lambda>articles.
     bindE (split_loop articles 0 [] []) (\<lambda>(original_data, titles_only).
     bindE (py_slice_to raw_articles num_items) (\<lambda>sliced.
     bindE (py_iter sliced) (\<lambda>head_articles.
       merge_loop cat original_data Map.empty 0 head_articles [])))))))"

section \<open>The Section Assigner\<close>

text \<open>
  \<open>_simple_distribution\<close>. The functions of this section touch the items only through
  their positions, so they are stated for any type of item.
\<close>

definition slice :: "nat \<Rightarrow> nat \<Rightarrow> 'a list \<Rightarrow> 'a list" where
  "slice a b xs = take (b - a) (drop a xs)"

definition simple_distribution :: "'a list \<Rightarrow> (string \<times> 'a list) list" where
  "simple_distribution items =
     [(''main-story'', if length items > 0 then slice 0 1 items else []),
      (''main-story-summary'', if length items > 0 then slice 0 1 items else []),
      (''second-story'', if length items > 1 then slice 1 2 items else []),
      (''third-story'', if length items > 2 then slice 2 3 items else []),
      (''trendsetter'', if length items > 3 then slice 3 5 items else []),
      (''top-news'', if length items > 5 then slice 5 8 items else []),
      (''links'', if length items > 8 then slice 8 11 items else [])]"

text \<open>
  The inner loop \<open>for idx in indices\<close> with the list being filled for the section and
  \<open>used_indices\<close>.
\<close>

fun index_loop :: "'a list \<Rightarrow> json list \<Rightarrow> 'a list \<Rightarrow> int set \<Rightarrow> 'a list \<times> int set" where
  "index_loop all_items [] section used_indices = (section, used_indices)"
| "index_loop all_items (idx # indices) section used_indices =
     (if isinstance_int idx \<and> 0 \<le> int_value idx \<and> int_value idx < int (length all_items)
         \<and> int_value idx \<notin> used_indices
      then index_loop all_items indices (section @ [all_items ! nat (int_value idx)])
             (insert (int_value idx) used_indices)
      else index_loop all_items indices section used_indices)"

text \<open>The outer loop \<open>for section_key, indices in assignments.items()\<close>.\<close>

fun section_loop ::
  "'a list \<Rightarrow> (string \<times> json) list \<Rightarrow> (string \<times> 'a list) list \<Rightarrow> int set
     \<Rightarrow> exn + (string \<times> 'a list) list" where
  "section_loop all_items [] section_items used_indices = Inr section_items"
| "section_loop all_items ((section_key, indices) # rest) section_items used_indices =
     bindE (py_iter indices) (\<lambda>idxs.
       (let (section, used') = index_loop all_items idxs [] used_indices in
        section_loop all_items rest (AList.update section_key section section_items) used'))"

text \<open>
  The body of the \<open>try\<close> block of \<open>rank_and_assign_to_sections\<close>. \<open>ranking_r\<close> is what the
  model answers when a prompt reaches it.
\<close>

definition ranking_body ::
  "(string \<Rightarrow> json option) \<Rightarrow> response \<Rightarrow> 'a list \<Rightarrow> exn + (string \<times> 'a list) list" where
  "ranking_body loads ranking_r all_items =
     bindE (ainvoke ranking_prompt_fields [''count'', ''news_summary''] ranking_r) (\<lambda>result.
     bindE (json_loads loads (clean_fence result)) (\<lambda>data.
     bindE (py_get data ''assignments'' (JObj [])) (\<lambda>assignments.
     bindE (py_items assignments) (\<lambda>kvs.
       section_loop all_items kvs [] {}))))"

definition rank_and_assign_to_sections ::
  "(string \<Rightarrow> json option) \<Rightarrow> response \<Rightarrow> (string \<times> 'a list) list
     \<Rightarrow> exn + (string \<times> 'a list) list" where
  "rank_and_assign_to_sections loads ranking_r all_news =
     (let all_items = concat (map snd all_news) in
      if all_items = [] then Inr []
      else try_except (ranking_body loads ranking_r all_items)
             (\<lambda>e. Inr (simple_distribution all_items)))"

text \<open>The seven section keys of the specification, each with an empty sequence.\<close>

definition seven_empty_sections :: "(string \<times> 'a list) list" where
  "seven_empty_sections =
     [(''main-story'', []), (''main-story-summary'', []), (''second-story'', []),
      (''third-story'', []), (''trendsetter'', []), (''top-news'', []), (''links'', [])]"

section \<open>The Related-News Searcher\<close>

text \<open>\<open>needle in s\<close> on strings.\<close>

fun contains :: "string \<Rightarrow> string \<Rightarrow> bool" where
  "contains [] needle = (needle = [])"
| "contains (c # cs) needle = (startswith (c # cs) needle \<or> contains cs needle)"

definition related_item :: "json \<Rightarrow> exn + news_item option" where
  "related_item article =
     bindE (py_get article ''url'' (JStr [])) (\<lambda>u0.
     bindE (py_strip u0) (\<lambda>url0.
       if url0 \<noteq> [] \<and> url0 \<noteq> ''https://...'' \<and> startswith url0 ''http'' then
         bindE (py_get article ''title'' (JStr [])) (\<lambda>t.
         bindE (py_get article ''publisher'' (JStr ''Industry Source'')) (\<lambda>p.
         bindE (py_get article ''published_date'' (JStr ''2026-01-12'')) (\<lambda>d.
         bindE (py_get article ''summary'' (JStr [])) (\<lambda>sm.
         bindE (py_get article ''why_it_matters'' (JStr [])) (\<lambda>w.
         bindE (NewsItem ''related'' t p d (JStr url0) sm w [''related'', ''digital-marketing''])
           (\<lambda>item. Inr (Some item)))))))
       else Inr None))"

fun related_loop :: "json list \<Rightarrow> news_item list \<Rightarrow> exn + news_item list" where
  "related_loop [] items = Inr items"
| "related_loop (article # articles) items =
     bindE (related_item article) (\<lambda>r.
       related_loop articles
         (case r of
            None \<Rightarrow> items
          | Some item \<Rightarrow> if title item \<noteq> [] then items @ [item] else items))"

text \<open>
  The \<open>try\<close> block of the related search: \<open>Some items\<close> where it returns, \<open>None\<close> where
  control falls through to the category-based search.
\<close>

definition related_body ::
  "(string \<Rightarrow> json option) \<Rightarrow> int \<Rightarrow> response \<Rightarrow> exn + news_item list option" where
  "related_body loads num_items related_r =
     bindE (ainvoke related_prompt_fields [''num_items'', ''topic''] related_r) (\<lambda>search_result.
     bindE (json_loads loads (clean_related search_result)) (\<lambda>search_data.
     bindE (py_get search_data ''news'' (JArr [])) (\<lambda>raw_articles.
       if truthy raw_articles then
         bindE (py_slice_to raw_articles num_items) (\<lambda>sliced.
         bindE (py_iter sliced) (\<lambda>articles.
         bindE (related_loop articles []) (\<lambda>items.
           if items \<noteq> [] then Inr (Some items) else Inr None)))
       else Inr None)))"

fun category_loop ::
  "(string \<Rightarrow> json option) \<Rightarrow> int \<Rightarrow> (string \<Rightarrow> response \<times> response \<times> response)
     \<Rightarrow> string list \<Rightarrow> news_item list \<Rightarrow> exn + news_item list" where
  "category_loop loads items_per_cat cat_r [] items = Inr items"
| "category_loop loads items_per_cat cat_r (cat # cats) items =
     (case cat_r cat of (search_r, titles_r, fallback_r) \<Rightarrow>
        bindE (fetch_news_with_catchy_titles loads cat items_per_cat search_r titles_r fallback_r)
          (\<lambda>cat_items. category_loop loads items_per_cat cat_r cats (items @ cat_items)))"

text \<open>
  \<open>search_news_for_section\<close>. \<open>related_r\<close> is the answer to the related search and
  \<open>cat_r\<close> gives, for each category, the answers to the three calls of the Category
  Searcher. The digest of the Deduplicator is the parameter \<open>md5\<close>.
\<close>

definition search_news_for_section ::
  "(string \<Rightarrow> json option) \<Rightarrow> (string \<Rightarrow> 'd) \<Rightarrow> string \<Rightarrow> string \<Rightarrow> int \<Rightarrow> response
     \<Rightarrow> (string \<Rightarrow> response \<times> response \<times> response) \<Rightarrow> exn + news_item list" where
  "search_news_for_section loads md5 section_title section_description num_items related_r cat_r =
     (let is_related_search = contains section_description ''Find news related to:'';
          related = (if is_related_search
                     then try_except (related_body loads num_items related_r) (\<lambda>e. Inr None)
                     else Inr None)
      in bindE related (\<lambda>found.
           case found of
             Some items \<Rightarrow> Inr items
           | None \<Rightarrow>
               (let categories = [''seo'', ''ppc'', ''social_media'', ''website''];
                    items_per_cat = max 1 (num_items div int (length categories))
                in bindE (category_loop loads items_per_cat cat_r categories []) (\<lambda>items.
                     Inr (slice_to (dedupe_items md5 items) num_items)))))"

section \<open>Notions used in the statements\<close>

text \<open>
  The elements a section's value yields when it is iterated, and among them the indices
  the Section Assigner can accept at all: instances of \<open>int\<close> within the range of the
  flattened list.
\<close>

definition entries_of :: "json \<Rightarrow> json list" where
  "entries_of v = (case py_iter v of Inr xs \<Rightarrow> xs | Inl e \<Rightarrow> [])"

definition valid_indices :: "nat \<Rightarrow> json list \<Rightarrow> int list" where
  "valid_indices n idxs =
     map int_value
       (filter (\<lambda>idx. isinstance_int idx \<and> 0 \<le> int_value idx \<and> int_value idx < int n) idxs)"

text \<open>
  First claim wins: the indices section \<open>p\<close> keeps are its valid indices that no
  earlier section lists, each once, in the order of their first occurrence.
\<close>

definition first_claims :: "nat \<Rightarrow> json list \<Rightarrow> nat \<Rightarrow> int list" where
  "first_claims n sections p =
     first_occurrences (\<lambda>i. i)
       (filter (\<lambda>i. \<forall>q<p. i \<notin> set (valid_indices n (entries_of (sections ! q))))
          (valid_indices n (entries_of (sections ! p))))"

text \<open>
  The url gate of the merge step, as a relation between the url of a raw article and
  the url of the item built from it.
\<close>

definition checked_url :: "string \<Rightarrow> string \<Rightarrow> bool" where
  "checked_url u result \<longleftrightarrow>
     strip u \<noteq> [] \<and> strip u \<noteq> ''https://...''
     \<and> result = (if startswith (strip u) ''http'' then strip u else ''https://'' @ strip u)"

text \<open>
  A section map with a function applied to every item.
\<close>

definition on_items :: "('a \<Rightarrow> 'b) \<Rightarrow> (string \<times> 'a list) list \<Rightarrow> (string \<times> 'b list) list" where
  "on_items f m = map (\<lambda>kv. (fst kv, map f (snd kv))) m"

section \<open>Auxiliary functions of the proofs\<close>

text \<open>The items of a list whose key is neither in \<open>seen\<close> nor the key of an earlier item.\<close>

fun filter_new :: "('a \<Rightarrow> 'd) \<Rightarrow> 'd set \<Rightarrow> 'a list \<Rightarrow> 'a list" where
  "filter_new f seen [] = []"
| "filter_new f seen (x # xs) =
     (if f x \<in> seen then filter_new f seen xs else x # filter_new f (insert (f x) seen) xs)"

text \<open>The indices kept section by section, with the set of consumed indices threaded through.\<close>

fun assign_rec :: "nat \<Rightarrow> int set \<Rightarrow> json list list \<Rightarrow> int list list" where
  "assign_rec n used [] = []"
| "assign_rec n used (e # es) =
     filter_new (\<lambda>i. i) used (valid_indices n e)
       # assign_rec n (used \<union> set (valid_indices n e)) es"

section \<open>Concrete inputs\<close>

text \<open>Items with given fields, the other fields being the defaults of the services.\<close>

definition titled :: "string \<Rightarrow> news_item" where
  "titled t = \<lparr>category = ''seo'', title = t, publisher = ''Industry Source'',
               published_date = ''2026-01-12'', url = ''https://example.com'', summary = [],
               why_it_matters = [], tags = [''seo'', ''digital-marketing'']\<rparr>"

definition example_item :: "string \<Rightarrow> string \<Rightarrow> string \<Rightarrow> news_item" where
  "example_item c t u = \<lparr>category = c, title = t, publisher = ''Industry Source'',
               published_date = ''2026-01-12'', url = u, summary = [],
               why_it_matters = [], tags = [c, ''digital-marketing'']\<rparr>"

text \<open>
  Model responses, and a parser that maps each of them to the value \<open>json.loads\<close>
  returns for it and rejects every other text.
\<close>

definition ex_search :: string where
  \<open>ex_search = ''{"news": [{"title": "Core update", "url": "example.com/a"}, {"title": "No link", "url": ""}]}''\<close>

definition ex_search_empty :: string where
  \<open>ex_search_empty = ''{"news": []}''\<close>

definition ex_titles :: string where
  \<open>ex_titles = ''{"titles": [{"index": 0, "catchy_title": "Massive core update"}]}''\<close>

definition ex_generated :: string where
  \<open>ex_generated = ''{"news": [{"catchy_title": "Plausible story", "url": ""}, {"catchy_title": ""}]}''\<close>

definition ex_ranking :: string where
  \<open>ex_ranking = ''{"assignments": {"main-story": [0], "second-story": [2], "third-story": [2, 3, 99, "4"], "bonus": [1]}}''\<close>

definition ex_related :: string where
  \<open>ex_related = ''{"news": [{"title": "Related story", "url": "https://example.com/r"}, {"title": "", "url": "https://example.com/s"}]}''\<close>

definition ex_unparsable :: string where
  "ex_unparsable = ''Sorry, I cannot help with that.''"

definition ex_fenced :: string where
  "ex_fenced = ''```json'' @ [CHR 0x0A] @ ex_search_empty @ [CHR 0x0A] @ ''```''"

definition ex_prose :: string where
  \<open>ex_prose = ''Result: {"news": []} (schema {news})''\<close>

definition ex_assignments :: "(string \<times> json) list" where
  "ex_assignments =
     [(''main-story'', JArr [JInt 0]),
      (''second-story'', JArr [JInt 2]),
      (''third-story'', JArr [JInt 2, JInt 3, JInt 99, JStr ''4'']),
      (''bonus'', JArr [JInt 1])]"

definition example_loads :: "string \<Rightarrow> json option" where
  "example_loads = map_of
     [(ex_search, JObj [(''news'', JArr
         [JObj [(''title'', JStr ''Core update''), (''url'', JStr ''example.com/a'')],
          JObj [(''title'', JStr ''No link''), (''url'', JStr [])]])]),
      (ex_search_empty, JObj [(''news'', JArr [])]),
      (ex_titles, JObj [(''titles'', JArr
         [JObj [(''index'', JInt 0), (''catchy_title'', JStr ''Massive core update'')]])]),
      (ex_generated, JObj [(''news'', JArr
         [JObj [(''catchy_title'', JStr ''Plausible story''), (''url'', JStr [])],
          JObj [(''catchy_title'', JStr [])]])]),
      (ex_ranking, JObj [(''assignments'', JObj ex_assignments)]),
      (ex_related, JObj [(''news'', JArr
         [JObj [(''title'', JStr ''Related story''), (''url'', JStr ''https://example.com/r'')],
          JObj [(''title'', JStr []), (''url'', JStr ''https://example.com/s'')]])])]"

text \<open>
  Twelve items in four categories.
\<close>

definition twelve_news :: "(string \<times> news_item list) list" where
  "twelve_news =
     [(''seo'', [titled ''s0'', titled ''s1'', titled ''s2'']),
      (''ppc'', [titled ''s3'', titled ''s4'', titled ''s5'']),
      (''social_media'', [titled ''s6'', titled ''s7'', titled ''s8'']),
      (''website'', [titled ''s9'', titled ''s10'', titled ''s11''])]"

section \<open>The Deduplicator keeps the first item of every fingerprint\<close>

lemma dedupe_loop_filter_new:
  "dedupe_loop md5 items seen acc = acc @ filter_new (\<lambda>it. md5 (title_key it)) seen items"
  by (induction items arbitrary: seen acc) (auto simp: Let_def)

lemma filter_new_subseq: "subseq (filter_new f seen xs) xs"
  by (induction xs arbitrary: seen) auto

lemma filter_new_fresh: "x \<in> set (filter_new f seen xs) \<Longrightarrow> f x \<notin> seen"
  by (induction xs arbitrary: seen) (auto split: if_splits)

lemma filter_new_distinct: "distinct (map f (filter_new f seen xs))"
  by (induction xs arbitrary: seen) (auto dest: filter_new_fresh)

lemma filter_new_index:
  "filter_new f seen xs =
     map (\<lambda>i. xs ! i)
       (filter (\<lambda>i. f (xs ! i) \<notin> seen \<and> (\<forall>j<i. f (xs ! j) \<noteq> f (xs ! i))) [0..<length xs])"
proof (induction xs arbitrary: seen)
  case Nil
  show ?case by simp
next
  case (Cons x xs)
  have up: "[0..<length (x # xs)] = 0 # map Suc [0..<length xs]"
    by (simp add: upt_conv_Cons map_Suc_upt del: upt_Suc)
  have all_Suc: "\<And>P i. (\<forall>j<Suc i. P j) = (P 0 \<and> (\<forall>j<i. P (Suc j)))"
    by (metis less_Suc_eq_0_disj Suc_less_eq zero_less_Suc)
  show ?case
  proof (cases "f x \<in> seen")
    case True
    have eq: "\<And>i. (f (xs ! i) \<notin> seen \<and> f x \<noteq> f (xs ! i) \<and> (\<forall>j<i. f (xs ! j) \<noteq> f (xs ! i)))
              = (f (xs ! i) \<notin> seen \<and> (\<forall>j<i. f (xs ! j) \<noteq> f (xs ! i)))"
      using True by auto
    show ?thesis
      unfolding up using True
      by (simp add: filter_map comp_def all_Suc Cons.IH eq del: upt_Suc)
  next
    case False
    have eq: "\<And>i. (f (xs ! i) \<notin> seen \<and> f x \<noteq> f (xs ! i) \<and> (\<forall>j<i. f (xs ! j) \<noteq> f (xs ! i)))
              = (f (xs ! i) \<noteq> f x \<and> f (xs ! i) \<notin> seen \<and> (\<forall>j<i. f (xs ! j) \<noteq> f (xs ! i)))"
      by auto
    show ?thesis
      unfolding up using False
      by (simp add: filter_map comp_def all_Suc Cons.IH eq del: upt_Suc)
  qed
qed

lemma first_occurrences_inj_on:
  "inj_on h (k ` set xs) \<Longrightarrow> first_occurrences (\<lambda>x. h (k x)) xs = first_occurrences k xs"
  unfolding first_occurrences_def
  by (intro arg_cong[where f="map _"] filter_cong refl) (auto simp: inj_on_def)

text \<open>
  Claim C6. For every input sequence, \<open>_dedupe_items\<close> returns a subsequence of the input
  in the input's order; no two items of the output have the same fingerprint, the
  fingerprint of an item being the first 50 characters of its lower-cased, trimmed
  title; and the items kept are exactly the first items of each fingerprint, every later
  item with a fingerprint seen before being dropped. The code compares MD5 digests of
  the fingerprints: the last part is stated for a digest that does not collide on the
  fingerprints of the input.
\<close>

theorem dedupe_items_first_seen:
  "subseq (dedupe_items md5 items) items
   \<and> distinct (map title_key (dedupe_items md5 items))
   \<and> (inj_on md5 (title_key ` set items) \<longrightarrow>
        dedupe_items md5 items = first_occurrences title_key items)"
proof (intro conjI impI)
  show "subseq (dedupe_items md5 items) items"
    by (simp add: dedupe_items_def dedupe_loop_filter_new filter_new_subseq)
  have "distinct (map (\<lambda>it. md5 (title_key it)) (dedupe_items md5 items))"
    by (simp add: dedupe_items_def dedupe_loop_filter_new filter_new_distinct)
  then have "distinct (map md5 (map title_key (dedupe_items md5 items)))"
    by (simp add: comp_def)
  then show "distinct (map title_key (dedupe_items md5 items))"
    using distinct_map by blast
  assume inj: "inj_on md5 (title_key ` set items)"
  have "dedupe_items md5 items = first_occurrences (\<lambda>it. md5 (title_key it)) items"
    by (simp add: dedupe_items_def dedupe_loop_filter_new first_occurrences_def
        filter_new_index [where seen="{}", simplified])
  then show "dedupe_items md5 items = first_occurrences title_key items"
    using first_occurrences_inj_on [OF inj] by simp
qed

theorem dedupe_items_first_seen_witness:
  "inj_on (\<lambda>s. s)
     (title_key ` set [titled ''  Google Update'', titled ''google update  '', titled ''Other''])
   \<and> dedupe_items (\<lambda>s. s)
         [titled ''  Google Update'', titled ''google update  '', titled ''Other'']
       = [titled ''  Google Update'', titled ''Other'']"
proof -
  have inj: "inj_on (\<lambda>s::string. s)
      (title_key ` set [titled ''  Google Update'', titled ''google update  '', titled ''Other''])"
    by (rule inj_on_id2)
  have ev: "first_occurrences title_key
      [titled ''  Google Update'', titled ''google update  '', titled ''Other'']
      = [titled ''  Google Update'', titled ''Other'']"
    by code_simp
  show ?thesis
    using dedupe_items_first_seen
      [of "\<lambda>s. s" "[titled ''  Google Update'', titled ''google update  '', titled ''Other'']"]
      inj ev
    by simp
qed

section \<open>Formatting the prompts\<close>

text \<open>
  Four of the five prompts are formatted by the inputs of their calls; the ranking
  prompt is not, so its call raises whatever the model would answer.
\<close>

lemma ainvoke_search: "ainvoke search_prompt_fields [''num_items'', ''category''] r = r"
  by (simp add: ainvoke_def format_prompt_def search_prompt_fields_def bindE_def)

lemma ainvoke_titles: "ainvoke titles_prompt_fields [''titles''] r = r"
  by (simp add: ainvoke_def format_prompt_def titles_prompt_fields_def bindE_def)

lemma ainvoke_fallback: "ainvoke fallback_prompt_fields [''num_items'', ''category''] r = r"
  by (simp add: ainvoke_def format_prompt_def fallback_prompt_fields_def bindE_def)

lemma ainvoke_related: "ainvoke related_prompt_fields [''num_items'', ''topic''] r = r"
  by (simp add: ainvoke_def format_prompt_def related_prompt_fields_def bindE_def)

lemma ainvoke_ranking: "ainvoke ranking_prompt_fields [''count'', ''news_summary''] r = Inl KeyError"
  by (simp add: ainvoke_def format_prompt_def ranking_prompt_fields_def bindE_def)

lemma ranking_body_raises: "ranking_body loads ranking_r all_items = Inl KeyError"
  by (simp add: ranking_body_def ainvoke_ranking bindE_def)

lemma fetch_ai_generated_news_eq:
  "fetch_ai_generated_news loads cat num_items fallback_r =
     try_except
       (bindE fallback_r (\<lambda>result.
        bindE (json_loads loads (clean_fence result)) (\<lambda>data.
        bindE (py_get data ''news'' (JArr [])) (\<lambda>news.
        bindE (py_slice_to news num_items) (\<lambda>sliced.
        bindE (py_iter sliced) (\<lambda>articles.
          fallback_loop cat articles []))))))
       (\<lambda>e. Inr [])"
  unfolding fetch_ai_generated_news_def ainvoke_fallback by (rule refl)

lemma search_body_eq:
  "search_body loads cat num_items search_r titles_r fallback_r =
     bindE search_r (\<lambda>search_result.
     bindE (json_loads loads (clean_fence search_result)) (\<lambda>search_data.
     bindE (py_get search_data ''news'' (JArr [])) (\<lambda>raw_articles.
       if \<not> truthy raw_articles
       then fetch_ai_generated_news loads cat num_items fallback_r
       else
         bindE (py_iter raw_articles) (\<lambda>articles.
         bindE (split_loop articles 0 [] []) (\<lambda>(original_data, titles_only).
         bindE titles_r (\<lambda>titles_result.
         bindE (json_loads loads (clean_fence titles_result)) (\<lambda>titles_data.
         bindE (py_get titles_data ''titles'' (JArr [])) (\<lambda>tl.
         bindE (py_iter tl) (\<lambda>title_items.
         bindE (catchy_loop title_items Map.empty) (\<lambda>catchy_map.
         bindE (py_slice_to raw_articles num_items) (\<lambda>sliced.
         bindE (py_iter sliced) (\<lambda>head_articles.
           merge_loop cat original_data catchy_map 0 head_articles []))))))))))))"
  unfolding search_body_def ainvoke_search ainvoke_titles by (rule refl)

lemma related_body_eq:
  "related_body loads num_items related_r =
     bindE related_r (\<lambda>search_result.
     bindE (json_loads loads (clean_related search_result)) (\<lambda>search_data.
     bindE (py_get search_data ''news'' (JArr [])) (\<lambda>raw_articles.
       if truthy raw_articles then
         bindE (py_slice_to raw_articles num_items) (\<lambda>sliced.
         bindE (py_iter sliced) (\<lambda>articles.
         bindE (related_loop articles []) (\<lambda>items.
           if items \<noteq> [] then Inr (Some items) else Inr None)))
       else Inr None)))"
  unfolding related_body_def ainvoke_related by (rule refl)

section \<open>Exceptions and their handlers\<close>

lemma bindE_Inl: "bindE (Inl e) f = Inl e"
  by (simp add: bindE_def)

lemma bindE_Inr: "bindE (Inr v) f = f v"
  by (simp add: bindE_def)

lemma bindE_eq_Inr: "bindE m f = Inr v \<longleftrightarrow> (\<exists>x. m = Inr x \<and> f x = Inr v)"
  by (cases m) (auto simp: bindE_def)

lemma try_except_Inl: "try_except (Inl e) handler = handler e"
  by (simp add: try_except_def)

lemma try_except_Inr: "try_except (Inr v) handler = Inr v"
  by (simp add: try_except_def)

lemma try_except_total:
  "(\<And>e. \<exists>v. handler e = Inr v) \<Longrightarrow> \<exists>v. try_except body handler = Inr v"
  by (cases body) (auto simp: try_except_def)

lemma try_except_same:
  "body = h \<Longrightarrow> (\<exists>v. h = Inr v) \<Longrightarrow> try_except body (\<lambda>e. h) = h"
  by (auto simp: try_except_def)

lemma fetch_ai_generated_news_returns:
  "\<exists>items. fetch_ai_generated_news loads cat num_items fallback_r = Inr items"
  unfolding fetch_ai_generated_news_eq by (rule try_except_total) simp

lemma fetch_news_returns:
  "\<exists>items. fetch_news_with_catchy_titles loads cat num_items search_r titles_r fallback_r = Inr items"
  unfolding fetch_news_with_catchy_titles_def
  by (rule try_except_total) (rule fetch_ai_generated_news_returns)

text \<open>
  Claim C8. The Category Searcher returns a list of items whatever the three model calls
  answer or raise: no exception reaches its caller. And when the search response parses
  and its \<open>news\<close> value is empty (the empty array, or any other value Python counts as
  false), the result is the result of the Fallback Generator for the same category and
  count.
\<close>
theorem empty_news_delegates_and_never_raises:
  "(\<exists>items. fetch_news_with_catchy_titles loads cat num_items search_r titles_r fallback_r
       = Inr items)
   \<and> (search_r = Inr search_result
        \<and> loads (clean_fence search_result) = Some search_data
        \<and> py_get search_data ''news'' (JArr []) = Inr raw_articles
        \<and> \<not> truthy raw_articles
      \<longrightarrow> fetch_news_with_catchy_titles loads cat num_items search_r titles_r fallback_r
            = fetch_ai_generated_news loads cat num_items fallback_r)"
proof (intro conjI impI)
  show "\<exists>items. fetch_news_with_catchy_titles loads cat num_items search_r titles_r fallback_r
       = Inr items"
    by (rule fetch_news_returns)
next
  assume h: "search_r = Inr search_result
        \<and> loads (clean_fence search_result) = Some search_data
        \<and> py_get search_data ''news'' (JArr []) = Inr raw_articles
        \<and> \<not> truthy raw_articles"
  then have body: "search_body loads cat num_items search_r titles_r fallback_r
      = fetch_ai_generated_news loads cat num_items fallback_r"
    by (simp add: search_body_eq bindE_Inr json_loads_def)
  show "fetch_news_with_catchy_titles loads cat num_items search_r titles_r fallback_r
            = fetch_ai_generated_news loads cat num_items fallback_r"
    unfolding fetch_news_with_catchy_titles_def
    by (rule try_except_same [OF body fetch_ai_generated_news_returns])
qed

theorem empty_news_delegates_and_never_raises_witness:
  "example_loads (clean_fence ex_search_empty) = Some (JObj [(''news'', JArr [])])
   \<and> py_get (JObj [(''news'', JArr [])]) ''news'' (JArr []) = Inr (JArr [])
   \<and> \<not> truthy (JArr [])
   \<and> fetch_news_with_catchy_titles example_loads ''seo'' 4
         (Inr ex_search_empty) (Inr ex_titles) (Inr ex_generated)
       = fetch_ai_generated_news example_loads ''seo'' 4 (Inr ex_generated)
   \<and> fetch_ai_generated_news example_loads ''seo'' 4 (Inr ex_generated)
       = Inr [example_item ''seo'' ''Plausible story'' []]"
proof -
  have l: "example_loads (clean_fence ex_search_empty) = Some (JObj [(''news'', JArr [])])"
    by code_simp
  have g: "py_get (JObj [(''news'', JArr [])]) ''news'' (JArr []) = Inr (JArr [])"
    by simp
  have f: "fetch_ai_generated_news example_loads ''seo'' 4 (Inr ex_generated)
       = Inr [example_item ''seo'' ''Plausible story'' []]"
    by code_simp
  show ?thesis
    using empty_news_delegates_and_never_raises
      [of example_loads "''seo''" 4 "Inr ex_search_empty" "Inr ex_titles" "Inr ex_generated"
          ex_search_empty "JObj [(''news'', JArr [])]" "JArr []"]
      l g f
    by simp
qed

section \<open>A rewrite response that does not parse\<close>

text \<open>
  Claim C1 does not hold as stated. With a search response that has an article passing
  the url gate and a rewrite response that is not JSON, the merge with original titles
  would give that article; the Category Searcher returns the story of the Fallback
  Generator instead.
\<close>
theorem rewrite_parse_failure_counterexample:
  "example_loads (clean_fence ex_unparsable) = None
   \<and> merge_with_original_titles example_loads ''seo'' 4 (Inr ex_search)
       = Inr [example_item ''seo'' ''Core update'' ''https://example.com/a'']
   \<and> fetch_news_with_catchy_titles example_loads ''seo'' 4
         (Inr ex_search) (Inr ex_unparsable) (Inr ex_generated)
       = Inr [example_item ''seo'' ''Plausible story'' []]
   \<and> fetch_news_with_catchy_titles example_loads ''seo'' 4
         (Inr ex_search) (Inr ex_unparsable) (Inr ex_generated)
       \<noteq> merge_with_original_titles example_loads ''seo'' 4 (Inr ex_search)"
  by code_simp

text \<open>
  Claim C1, amended. The rewrite response is parsed inside the \<open>try\<close> block of the whole
  search, so when it fails to parse the handler of that block runs: the search-derived
  items are discarded and the result is the result of the Fallback Generator for the
  same category and count. The request does not fail.
\<close>
theorem rewrite_parse_failure_delegates:
  "titles_r = Inr titles_result \<Longrightarrow> loads (clean_fence titles_result) = None \<Longrightarrow>
   fetch_news_with_catchy_titles loads cat num_items search_r titles_r fallback_r
     = fetch_ai_generated_news loads cat num_items fallback_r"
proof -
  assume t: "titles_r = Inr titles_result" and l: "loads (clean_fence titles_result) = None"
  obtain fb where fb: "fetch_ai_generated_news loads cat num_items fallback_r = Inr fb"
    using fetch_ai_generated_news_returns by blast
  have "search_body loads cat num_items search_r titles_r fallback_r = Inr fb
        \<or> (\<exists>e. search_body loads cat num_items search_r titles_r fallback_r = Inl e)"
    unfolding search_body_eq using t l fb
    by (auto simp: bindE_def json_loads_def split: sum.splits prod.splits)
  then show ?thesis
    unfolding fetch_news_with_catchy_titles_def using fb
    by (auto simp: try_except_def)
qed

theorem rewrite_parse_failure_delegates_witness:
  "example_loads (clean_fence ex_unparsable) = None
   \<and> fetch_news_with_catchy_titles example_loads ''seo'' 4
         (Inr ex_search) (Inr ex_unparsable) (Inr ex_generated)
       = fetch_ai_generated_news example_loads ''seo'' 4 (Inr ex_generated)"
proof -
  have l: "example_loads (clean_fence ex_unparsable) = None"
    by code_simp
  show ?thesis
    using rewrite_parse_failure_delegates
      [of "Inr ex_unparsable" ex_unparsable example_loads "''seo''" 4 "Inr ex_search"
          "Inr ex_generated"] l
    by simp
qed

section \<open>Titles of the items created\<close>

lemma as_str_eq_Inr: "as_str j = Inr s \<longleftrightarrow> j = JStr s"
  by (cases j) auto

lemma NewsItem_eq_Inr:
  "NewsItem c t p d u s w tg = Inr item \<Longrightarrow>
     t = JStr (title item) \<and> u = JStr (url item) \<and> category item = c"
  by (auto simp: NewsItem_def bindE_eq_Inr as_str_eq_Inr)

lemma fallback_loop_titles:
  "fallback_loop cat articles acc = Inr items \<Longrightarrow> \<forall>it\<in>set acc. title it \<noteq> [] \<Longrightarrow>
     \<forall>it\<in>set items. title it \<noteq> []"
proof (induction articles arbitrary: acc)
  case Nil
  then show ?case by simp
next
  case (Cons a articles)
  from Cons.prems(1) obtain item where
    step: "fallback_loop cat articles (if title item \<noteq> [] then acc @ [item] else acc) = Inr items"
    by (auto simp: bindE_eq_Inr)
  show ?case
    by (rule Cons.IH [OF step]) (use Cons.prems(2) in auto)
qed

lemma fetch_ai_generated_news_titles:
  "fetch_ai_generated_news loads cat num_items fallback_r = Inr items \<Longrightarrow>
     \<forall>it\<in>set items. title it \<noteq> []"
  unfolding fetch_ai_generated_news_eq try_except_def
  by (auto simp: bindE_eq_Inr split: sum.splits dest!: fallback_loop_titles)

lemma merge_loop_inv:
  assumes "merge_loop cat od cm i articles acc = Inr items"
    and "\<forall>it\<in>set acc. P it"
    and "\<And>j a it. merge_item cat od cm j a = Inr (Some it) \<Longrightarrow> title it \<noteq> [] \<Longrightarrow> P it"
  shows "\<forall>it\<in>set items. P it"
  using assms(1,2)
proof (induction articles arbitrary: i acc)
  case Nil
  then show ?case by simp
next
  case (Cons a articles)
  from Cons.prems(1) obtain r where
    r: "merge_item cat od cm i a = Inr r" and
    step: "merge_loop cat od cm (Suc i) articles
      (case r of None \<Rightarrow> acc | Some item \<Rightarrow> if title item \<noteq> [] then acc @ [item] else acc) = Inr items"
    by (auto simp: bindE_eq_Inr)
  show ?case
  proof (rule Cons.IH [OF step])
    show "\<forall>it\<in>set (case r of None \<Rightarrow> acc | Some item \<Rightarrow> if title item \<noteq> [] then acc @ [item] else acc). P it"
      using Cons.prems(2) r assms(3) by (auto split: option.splits)
  qed
qed

lemma related_loop_titles:
  "related_loop articles acc = Inr items \<Longrightarrow> \<forall>it\<in>set acc. title it \<noteq> [] \<Longrightarrow>
     \<forall>it\<in>set items. title it \<noteq> []"
proof (induction articles arbitrary: acc)
  case Nil
  then show ?case by simp
next
  case (Cons a articles)
  from Cons.prems(1) obtain r where
    step: "related_loop articles
      (case r of None \<Rightarrow> acc | Some item \<Rightarrow> if title item \<noteq> [] then acc @ [item] else acc) = Inr items"
    by (auto simp: bindE_eq_Inr)
  show ?case
    by (rule Cons.IH [OF step]) (use Cons.prems(2) in \<open>auto split: option.splits\<close>)
qed

lemma search_body_cases:
  assumes "search_body loads cat num_items search_r titles_r fallback_r = Inr items"
  shows "fetch_ai_generated_news loads cat num_items fallback_r = Inr items
       \<or> (\<exists>od cm arts. merge_loop cat od cm 0 arts [] = Inr items)"
  using assms unfolding search_body_eq
  by (auto simp: bindE_eq_Inr split: if_splits prod.splits)

lemma fetch_news_titles:
  assumes "fetch_news_with_catchy_titles loads cat num_items search_r titles_r fallback_r = Inr items"
  shows "\<forall>it\<in>set items. title it \<noteq> []"
proof -
  from assms consider
      "fetch_ai_generated_news loads cat num_items fallback_r = Inr items"
    | "search_body loads cat num_items search_r titles_r fallback_r = Inr items"
    unfolding fetch_news_with_catchy_titles_def try_except_def by (auto split: sum.splits)
  then show ?thesis
  proof cases
    case 1
    then show ?thesis by (rule fetch_ai_generated_news_titles)
  next
    case 2
    from search_body_cases [OF 2] show ?thesis
    proof
      assume "fetch_ai_generated_news loads cat num_items fallback_r = Inr items"
      then show ?thesis by (rule fetch_ai_generated_news_titles)
    next
      assume "\<exists>od cm arts. merge_loop cat od cm 0 arts [] = Inr items"
      then obtain od cm arts where m: "merge_loop cat od cm 0 arts [] = Inr items" by blast
      show ?thesis by (rule merge_loop_inv [OF m]) auto
    qed
  qed
qed

lemma category_loop_titles:
  "category_loop loads n cat_r cats acc = Inr items \<Longrightarrow> \<forall>it\<in>set acc. title it \<noteq> [] \<Longrightarrow>
     \<forall>it\<in>set items. title it \<noteq> []"
proof (induction cats arbitrary: acc)
  case Nil
  then show ?case by simp
next
  case (Cons c cats)
  obtain s t f where c: "cat_r c = (s, t, f)" by (cases "cat_r c") auto
  from Cons.prems(1) c obtain cat_items where
    f: "fetch_news_with_catchy_titles loads c n s t f = Inr cat_items" and
    step: "category_loop loads n cat_r cats (acc @ cat_items) = Inr items"
    by (auto simp: bindE_eq_Inr)
  show ?case
    by (rule Cons.IH [OF step]) (use Cons.prems(2) fetch_news_titles [OF f] in auto)
qed

lemma set_slice_to: "set (slice_to xs n) \<subseteq> set xs"
  by (auto simp: slice_to_def dest: in_set_takeD)

lemma set_filter_new: "set (filter_new f seen xs) \<subseteq> set xs"
  by (induction xs arbitrary: seen) auto

lemma set_dedupe_items: "set (dedupe_items md5 items) \<subseteq> set items"
  by (simp add: dedupe_items_def dedupe_loop_filter_new set_filter_new)

lemma related_body_titles:
  "related_body loads num_items related_r = Inr (Some items) \<Longrightarrow> \<forall>it\<in>set items. title it \<noteq> []"
  unfolding related_body_eq
  by (auto simp: bindE_eq_Inr split: if_splits dest!: related_loop_titles)

lemma search_news_for_section_titles:
  assumes "search_news_for_section loads md5 section_title section_description num_items
             related_r cat_r = Inr items"
  shows "\<forall>it\<in>set items. title it \<noteq> []"
proof -
  from assms consider
      "related_body loads num_items related_r = Inr (Some items)"
    | all where "category_loop loads (max 1 (num_items div 4)) cat_r
                   [''seo'', ''ppc'', ''social_media'', ''website''] [] = Inr all"
        "items = slice_to (dedupe_items md5 all) num_items"
    unfolding search_news_for_section_def Let_def try_except_def
    by (auto simp: bindE_eq_Inr split: if_splits sum.splits option.splits)
  then show ?thesis
  proof cases
    case 1
    then show ?thesis by (rule related_body_titles)
  next
    case 2
    have "\<forall>it\<in>set all. title it \<noteq> []"
      by (rule category_loop_titles [OF 2(1)]) simp
    moreover have "set items \<subseteq> set all"
      unfolding 2(2) using set_slice_to set_dedupe_items by fast
    ultimately show ?thesis by blast
  qed
qed

text \<open>
  Claim C10. Every item returned by the Fallback Generator, by the Category Searcher and
  by the Related-News Searcher has a title that is not the empty string: each of the
  three loops appends an item only when its title is not empty, and deduplication and
  truncation only remove items.
\<close>
theorem created_items_have_titles:
  "(fetch_ai_generated_news loads cat num_items fallback_r = Inr generated
      \<longrightarrow> (\<forall>it\<in>set generated. title it \<noteq> []))
   \<and> (fetch_news_with_catchy_titles loads cat num_items search_r titles_r fallback_r = Inr found
      \<longrightarrow> (\<forall>it\<in>set found. title it \<noteq> []))
   \<and> (search_news_for_section loads md5 section_title section_description num_items
         related_r cat_r = Inr related
      \<longrightarrow> (\<forall>it\<in>set related. title it \<noteq> []))"
proof (intro conjI impI)
  assume "fetch_ai_generated_news loads cat num_items fallback_r = Inr generated"
  then show "\<forall>it\<in>set generated. title it \<noteq> []"
    by (rule fetch_ai_generated_news_titles)
next
  assume "fetch_news_with_catchy_titles loads cat num_items search_r titles_r fallback_r
            = Inr found"
  then show "\<forall>it\<in>set found. title it \<noteq> []"
    by (rule fetch_news_titles)
next
  assume "search_news_for_section loads md5 section_title section_description num_items
            related_r cat_r = Inr related"
  then show "\<forall>it\<in>set related. title it \<noteq> []"
    by (rule search_news_for_section_titles)
qed

theorem created_items_have_titles_witness:
  "fetch_ai_generated_news example_loads ''seo'' 4 (Inr ex_generated)
       = Inr [example_item ''seo'' ''Plausible story'' []]
   \<and> fetch_news_with_catchy_titles example_loads ''seo'' 4
         (Inr ex_search) (Inr ex_titles) (Inr ex_generated)
       = Inr [example_item ''seo'' ''Massive core update'' ''https://example.com/a'']
   \<and> search_news_for_section example_loads (\<lambda>s. s) ''Top News''
         (''Find news related to: '' @ [CHR 0x22] @ ''core update'' @ [CHR 0x22]) 4
         (Inr ex_related) (\<lambda>c. (Inr ex_search, Inr ex_titles, Inr ex_generated))
       = Inr [example_item ''related'' ''Related story'' ''https://example.com/r'']
   \<and> title (example_item ''seo'' ''Plausible story'' []) \<noteq> []
   \<and> title (example_item ''seo'' ''Massive core update'' ''https://example.com/a'') \<noteq> []
   \<and> title (example_item ''related'' ''Related story'' ''https://example.com/r'') \<noteq> []"
proof -
  have a: "fetch_ai_generated_news example_loads ''seo'' 4 (Inr ex_generated)
       = Inr [example_item ''seo'' ''Plausible story'' []]"
    by code_simp
  have b: "fetch_news_with_catchy_titles example_loads ''seo'' 4
         (Inr ex_search) (Inr ex_titles) (Inr ex_generated)
       = Inr [example_item ''seo'' ''Massive core update'' ''https://example.com/a'']"
    by code_simp
  have c: "search_news_for_section example_loads (\<lambda>s. s) ''Top News''
         (''Find news related to: '' @ [CHR 0x22] @ ''core update'' @ [CHR 0x22]) 4
         (Inr ex_related) (\<lambda>c. (Inr ex_search, Inr ex_titles, Inr ex_generated))
       = Inr [example_item ''related'' ''Related story'' ''https://example.com/r'']"
    by code_simp
  show ?thesis
    using created_items_have_titles
      [where loads = example_loads and cat = "''seo''" and num_items = 4
         and fallback_r = "Inr ex_generated"
         and generated = "[example_item ''seo'' ''Plausible story'' []]"
         and search_r = "Inr ex_search" and titles_r = "Inr ex_titles"
         and found = "[example_item ''seo'' ''Massive core update'' ''https://example.com/a'']"
         and ?md5.0 = "\<lambda>s. s" and section_title = "''Top News''"
         and section_description =
           "''Find news related to: '' @ [CHR 0x22] @ ''core update'' @ [CHR 0x22]"
         and related_r = "Inr ex_related"
         and cat_r = "\<lambda>c. (Inr ex_search, Inr ex_titles, Inr ex_generated)"
         and related = "[example_item ''related'' ''Related story'' ''https://example.com/r'']"]
      a b c
    by simp
qed

section \<open>The url gate\<close>

text \<open>
  Claim C3 does not hold as stated. When the search response has an empty \<open>news\<close>
  array the Category Searcher returns the items of its internal fallback, and these carry
  the url the generator gave them: here the empty string.
\<close>
theorem url_gate_counterexample:
  "fetch_news_with_catchy_titles example_loads ''seo'' 4
     (Inr ex_search_empty) (Inr ex_titles) (Inr ex_generated)
     = Inr [example_item ''seo'' ''Plausible story'' []]
   \<and> url (example_item ''seo'' ''Plausible story'' []) = []"
  by code_simp

lemma strip_Nil: "strip [] = []"
  by (simp add: strip_def lstrip_def rstrip_def)

lemma split_loop_urls:
  "split_loop arts i od0 to0 = Inr (od, tos) \<Longrightarrow>
     \<exists>od1. od = od0 @ od1 \<and>
       list_all2 (\<lambda>a orig. py_get orig ''url'' (JStr []) = py_get a ''url'' (JStr [])) arts od1"
proof (induction arts arbitrary: i od0 to0)
  case Nil
  then show ?case by simp
next
  case (Cons a arts)
  from Cons.prems obtain u p d sm w t where
    u: "py_get a ''url'' (JStr []) = Inr u" and
    step: "split_loop arts (Suc i)
         (od0 @ [JObj [(''url'', u), (''publisher'', p), (''published_date'', d),
                       (''summary'', sm), (''why_it_matters'', w)]])
         (to0 @ [JObj [(''index'', JInt (int i)), (''title'', t)]]) = Inr (od, tos)"
    by (auto simp: bindE_eq_Inr)
  from Cons.IH [OF step] obtain od1 where
    od: "od = (od0 @ [JObj [(''url'', u), (''publisher'', p), (''published_date'', d),
                       (''summary'', sm), (''why_it_matters'', w)]]) @ od1" and
    rel: "list_all2 (\<lambda>a orig. py_get orig ''url'' (JStr []) = py_get a ''url'' (JStr [])) arts od1"
    by blast
  show ?case
    by (rule exI [where x = "JObj [(''url'', u), (''publisher'', p), (''published_date'', d),
                       (''summary'', sm), (''why_it_matters'', w)] # od1"])
       (use od rel u in simp)
qed

lemma merge_item_url:
  assumes "merge_item cat od cm i a = Inr (Some it)"
  shows "\<exists>u. py_get (original_get od i) ''url'' (JStr []) = Inr (JStr u) \<and> checked_url u (url it)"
proof -
  from assms obtain u0 url0 where
    u0: "py_get (original_get od i) ''url'' (JStr []) = Inr u0" and
    s: "py_strip u0 = Inr url0" and
    rest: "(if url0 = [] \<or> url0 = ''https://...'' \<or> url0 = [] then
          bindE (py_get a ''title'' (JStr ''Unknown'')) (\<lambda>_. Inr None)
        else
          (let url1 = (if \<not> startswith url0 ''http'' then ''https://'' @ url0 else url0) in
           bindE (py_get a ''title'' (JStr [])) (\<lambda>t0.
           (let catchy_title = (case cm (int i) of Some c \<Rightarrow> c | None \<Rightarrow> t0) in
            bindE (if truthy catchy_title then Inr catchy_title
                   else py_get a ''title'' (JStr [])) (\<lambda>t.
            bindE (py_get (original_get od i) ''publisher'' (JStr ''Industry Source'')) (\<lambda>p.
            bindE (py_get (original_get od i) ''published_date'' (JStr ''2026-01-12'')) (\<lambda>d.
            bindE (py_get (original_get od i) ''summary'' (JStr [])) (\<lambda>sm.
            bindE (py_get (original_get od i) ''why_it_matters'' (JStr [])) (\<lambda>w.
            bindE (NewsItem cat t p d (JStr url1) sm w [cat, ''digital-marketing''])
              (\<lambda>item. Inr (Some item))))))))))) = Inr (Some it)"
    unfolding merge_item_def Let_def by (auto simp: bindE_eq_Inr simp del: ex_simps)
  from s obtain u where u: "u0 = JStr u" "url0 = strip u"
    by (cases u0) auto
  have gate: "url0 \<noteq> []" "url0 \<noteq> ''https://...''"
    using rest by (auto simp: bindE_eq_Inr split: if_splits)
  with rest have "url it = (if \<not> startswith url0 ''http'' then ''https://'' @ url0 else url0)"
    by (auto simp: bindE_eq_Inr Let_def simp del: ex_simps split: if_splits dest!: NewsItem_eq_Inr)
  with gate u u0 show ?thesis
    by (auto simp: checked_url_def)
qed

lemma original_get_url_in_range:
  assumes "py_get (original_get od i) ''url'' (JStr []) = Inr (JStr u)" "strip u \<noteq> []"
  shows "i < length od \<and> py_get (od ! i) ''url'' (JStr []) = Inr (JStr u)"
  using assms by (cases "i < length od") (auto simp: original_get_def strip_Nil)

lemma checked_url_http: "checked_url u r \<Longrightarrow> r \<noteq> [] \<and> startswith r ''http''"
  by (auto simp: checked_url_def startswith_def)

text \<open>
  The gate compares the trimmed url with the placeholder before the scheme is put in
  front: a raw url of three dots passes it and leaves the merge step as the placeholder.
\<close>

lemma dots_become_placeholder:
  \<open>fetch_news_with_catchy_titles
     (map_of [(''{"news": [{"title": "T", "url": "..."}]}'',
               JObj [(''news'', JArr [JObj [(''title'', JStr ''T''), (''url'', JStr ''...'')]])]),
              (''{"titles": []}'', JObj [(''titles'', JArr [])])])
     ''seo'' 4 (Inr ''{"news": [{"title": "T", "url": "..."}]}'') (Inr ''{"titles": []}'')
     (Inl NetworkError)
   = Inr [example_item ''seo'' ''T'' ''https://...'']\<close>
  by code_simp

text \<open>
  Claim C3, amended. When the search response parses to a non-empty \<open>news\<close> value and
  the body of the search completes, the items returned are those of the merge step, and
  the url of each is the trimmed url of one of the raw articles, which was a string, not
  empty and not the placeholder \<open>https://...\<close>, with \<open>https://\<close> put in front when it did
  not start with \<open>http\<close>. So the url of such an item is not empty and starts with
  \<open>http\<close>. The items of the internal fallback are not covered.
\<close>
theorem merged_items_carry_checked_urls:
  assumes "search_r = Inr search_result"
    and "loads (clean_fence search_result) = Some search_data"
    and "py_get search_data ''news'' (JArr []) = Inr raw_articles"
    and "truthy raw_articles"
    and "py_iter raw_articles = Inr articles"
    and "search_body loads cat num_items search_r titles_r fallback_r = Inr items"
  shows "fetch_news_with_catchy_titles loads cat num_items search_r titles_r fallback_r = Inr items
    \<and> (\<forall>it\<in>set items.
          url it \<noteq> [] \<and> startswith (url it) ''http''
          \<and> (\<exists>article\<in>set articles. \<exists>u.
                py_get article ''url'' (JStr []) = Inr (JStr u)
                \<and> strip u \<noteq> [] \<and> strip u \<noteq> ''https://...''
                \<and> url it = (if startswith (strip u) ''http'' then strip u
                             else ''https://'' @ strip u)))"
proof
  show "fetch_news_with_catchy_titles loads cat num_items search_r titles_r fallback_r = Inr items"
    unfolding fetch_news_with_catchy_titles_def assms(6) by (simp add: try_except_def)
next
  from assms obtain od tos cm head where
    sp: "split_loop articles 0 [] [] = Inr (od, tos)" and
    ml: "merge_loop cat od cm 0 head [] = Inr items"
    unfolding search_body_eq
    by (auto simp: bindE_eq_Inr json_loads_def simp del: ex_simps split: prod.splits)
  from split_loop_urls [OF sp] have
    rel: "list_all2 (\<lambda>a orig. py_get orig ''url'' (JStr []) = py_get a ''url'' (JStr [])) articles od"
    by simp
  have inv: "\<forall>it\<in>set items. \<exists>k<length od. \<exists>u.
      py_get (od ! k) ''url'' (JStr []) = Inr (JStr u) \<and> checked_url u (url it)"
  proof (rule merge_loop_inv [OF ml])
    show "\<forall>it\<in>set []. \<exists>k<length od. \<exists>u.
      py_get (od ! k) ''url'' (JStr []) = Inr (JStr u) \<and> checked_url u (url it)"
      by simp
  next
    fix j a it
    assume "merge_item cat od cm j a = Inr (Some it)"
    from merge_item_url [OF this] obtain u where
      u: "py_get (original_get od j) ''url'' (JStr []) = Inr (JStr u)" "checked_url u (url it)"
      by blast
    then have "strip u \<noteq> []" by (simp add: checked_url_def)
    from original_get_url_in_range [OF u(1) this] u(2)
    show "\<exists>k<length od. \<exists>u.
      py_get (od ! k) ''url'' (JStr []) = Inr (JStr u) \<and> checked_url u (url it)"
      by blast
  qed
  show "\<forall>it\<in>set items.
          url it \<noteq> [] \<and> startswith (url it) ''http''
          \<and> (\<exists>article\<in>set articles. \<exists>u.
                py_get article ''url'' (JStr []) = Inr (JStr u)
                \<and> strip u \<noteq> [] \<and> strip u \<noteq> ''https://...''
                \<and> url it = (if startswith (strip u) ''http'' then strip u
                             else ''https://'' @ strip u))"
  proof
    fix it assume "it \<in> set items"
    with inv obtain k u where k: "k < length od"
      and u: "py_get (od ! k) ''url'' (JStr []) = Inr (JStr u)" and c: "checked_url u (url it)"
      by blast
    from rel k have len: "k < length articles"
      and eq: "py_get (od ! k) ''url'' (JStr []) = py_get (articles ! k) ''url'' (JStr [])"
      by (auto simp: list_all2_conv_all_nth)
    have mem: "articles ! k \<in> set articles" using len by simp
    from checked_url_http [OF c] c u eq mem
    show "url it \<noteq> [] \<and> startswith (url it) ''http''
          \<and> (\<exists>article\<in>set articles. \<exists>u.
                py_get article ''url'' (JStr []) = Inr (JStr u)
                \<and> strip u \<noteq> [] \<and> strip u \<noteq> ''https://...''
                \<and> url it = (if startswith (strip u) ''http'' then strip u
                             else ''https://'' @ strip u))"
      unfolding checked_url_def by metis
  qed
qed

theorem merged_items_carry_checked_urls_witness:
  "example_loads (clean_fence ex_search) = Some (JObj [(''news'', JArr
         [JObj [(''title'', JStr ''Core update''), (''url'', JStr ''example.com/a'')],
          JObj [(''title'', JStr ''No link''), (''url'', JStr [])]])])
   \<and> search_body example_loads ''seo'' 4 (Inr ex_search) (Inr ex_titles) (Inr ex_generated)
       = Inr [example_item ''seo'' ''Massive core update'' ''https://example.com/a'']
   \<and> fetch_news_with_catchy_titles example_loads ''seo'' 4
         (Inr ex_search) (Inr ex_titles) (Inr ex_generated)
       = Inr [example_item ''seo'' ''Massive core update'' ''https://example.com/a'']
   \<and> url (example_item ''seo'' ''Massive core update'' ''https://example.com/a'') \<noteq> []
   \<and> startswith (url (example_item ''seo'' ''Massive core update'' ''https://example.com/a''))
         ''http''"
proof -
  let ?arts = "[JObj [(''title'', JStr ''Core update''), (''url'', JStr ''example.com/a'')],
          JObj [(''title'', JStr ''No link''), (''url'', JStr [])]]"
  have l: "example_loads (clean_fence ex_search) = Some (JObj [(''news'', JArr ?arts)])"
    by code_simp
  have g: "py_get (JObj [(''news'', JArr ?arts)]) ''news'' (JArr []) = Inr (JArr ?arts)"
    by simp
  have t: "truthy (JArr ?arts)" by simp
  have i: "py_iter (JArr ?arts) = Inr ?arts" by simp
  have b: "search_body example_loads ''seo'' 4 (Inr ex_search) (Inr ex_titles) (Inr ex_generated)
       = Inr [example_item ''seo'' ''Massive core update'' ''https://example.com/a'']"
    by code_simp
  show ?thesis
    using merged_items_carry_checked_urls [OF refl l g t i b] l b by simp
qed

section \<open>The Section Assigner on an empty input\<close>

text \<open>
  Claim C4 does not hold as stated. With no item in any category the Section Assigner
  returns the empty map, which is not the map of the seven section keys to empty
  sequences.
\<close>
theorem empty_input_counterexample:
  "rank_and_assign_to_sections example_loads (Inr ex_ranking)
     [(''seo'', []), (''ppc'', []), (''social_media'', []), (''website'', [])]
     = (Inr [] :: exn + (string \<times> news_item list) list)
   \<and> rank_and_assign_to_sections example_loads (Inr ex_ranking)
     [(''seo'', []), (''ppc'', []), (''social_media'', []), (''website'', [])]
     \<noteq> (Inr seven_empty_sections :: exn + (string \<times> news_item list) list)"
  by (simp add: rank_and_assign_to_sections_def seven_empty_sections_def)

lemma simple_distribution_Nil: "simple_distribution [] = seven_empty_sections"
  by (simp add: simple_distribution_def seven_empty_sections_def)

text \<open>
  Claim C4, amended. When the flattened list of items is empty, the Section Assigner
  returns the empty map, without a model call and without an error. The map of the seven
  section keys to empty sequences is what \<open>_simple_distribution\<close> gives for the empty
  list; the guard returns before it is reached.
\<close>
theorem empty_input_gives_empty_map:
  "concat (map snd all_news) = [] \<Longrightarrow>
     rank_and_assign_to_sections loads ranking_r all_news = Inr []
     \<and> simple_distribution (concat (map snd all_news)) = seven_empty_sections"
proof -
  assume e: "concat (map snd all_news) = []"
  have "rank_and_assign_to_sections loads ranking_r all_news = Inr []"
    unfolding rank_and_assign_to_sections_def Let_def e by simp
  moreover have "simple_distribution (concat (map snd all_news)) = seven_empty_sections"
    unfolding e by (rule simple_distribution_Nil)
  ultimately show ?thesis by simp
qed

theorem empty_input_gives_empty_map_witness:
  "concat (map snd [(''seo'', []), (''ppc'', [])]) = ([] :: news_item list)
   \<and> rank_and_assign_to_sections example_loads (Inr ex_unparsable)
        [(''seo'', []), (''ppc'', [])] = (Inr [] :: exn + (string \<times> news_item list) list)"
  using empty_input_gives_empty_map
    [of "[(''seo'', []), (''ppc'', [])] :: (string \<times> news_item list) list"
        example_loads "Inr ex_unparsable"]
  by simp

section \<open>The ranking loop, and the call before it\<close>

text \<open>
  The two loops that filter the indices of a parsed \<open>assignments\<close> dictionary, taken by
  themselves: when every value of the dictionary can be iterated, the section at position
  \<open>p\<close> gets the items at its valid indices that no earlier section lists, each once.
\<close>

lemma index_loop_char:
  "index_loop all_items idxs acc used =
     (acc @ map (\<lambda>i. all_items ! nat i)
              (filter_new (\<lambda>i. i) used (valid_indices (length all_items) idxs)),
      used \<union> set (valid_indices (length all_items) idxs))"
  by (induction idxs arbitrary: acc used) (auto simp: valid_indices_def)

lemma update_fresh: "k \<notin> fst ` set al \<Longrightarrow> AList.update k v al = al @ [(k, v)]"
  by (induction al) auto

lemma section_loop_rec:
  assumes "section_loop all_items kvs si used = Inr m"
    and "distinct (map fst kvs)" and "fst ` set kvs \<inter> fst ` set si = {}"
  shows "map (\<lambda>kv. py_iter (snd kv)) kvs = map (\<lambda>kv. Inr (entries_of (snd kv))) kvs
       \<and> m = si @ map2 (\<lambda>k ks. (k, map (\<lambda>i. all_items ! nat i) ks)) (map fst kvs)
                  (assign_rec (length all_items) used (map (\<lambda>kv. entries_of (snd kv)) kvs))"
  using assms
proof (induction kvs arbitrary: si used)
  case Nil
  then show ?case by simp
next
  case (Cons kv kvs)
  obtain k v where kv: "kv = (k, v)" by (cases kv) auto
  from Cons.prems(1) kv obtain idxs where
    it: "py_iter v = Inr idxs" and
    step: "section_loop all_items kvs
       (AList.update k (map (\<lambda>i. all_items ! nat i)
           (filter_new (\<lambda>i. i) used (valid_indices (length all_items) idxs))) si)
       (used \<union> set (valid_indices (length all_items) idxs)) = Inr m"
    by (auto simp: bindE_eq_Inr index_loop_char)
  have fresh: "k \<notin> fst ` set si" using Cons.prems(3) kv by auto
  have e: "entries_of v = idxs" using it by (simp add: entries_of_def)
  have d: "distinct (map fst kvs)" using Cons.prems(2) by simp
  have disj: "fst ` set kvs \<inter> fst ` set (si @ [(k, map (\<lambda>i. all_items ! nat i)
           (filter_new (\<lambda>i. i) used (valid_indices (length all_items) idxs)))]) = {}"
    using Cons.prems(2,3) kv by auto
  from Cons.IH [OF step [unfolded update_fresh [OF fresh]] d disj] it e kv
  show ?case by simp
qed

lemma filter_new_Un:
  "filter_new f (A \<union> B) xs = filter_new f B (filter (\<lambda>x. f x \<notin> A) xs)"
proof (induction xs arbitrary: B)
  case Nil
  show ?case by simp
next
  case (Cons a xs)
  show ?case
  proof (cases "f a \<in> A \<or> f a \<in> B")
    case True
    then show ?thesis using Cons.IH [of B] by auto
  next
    case False
    then show ?thesis using Cons.IH [of "insert (f a) B"] by simp
  qed
qed

lemma filter_new_first_occurrences:
  "filter_new f seen xs = first_occurrences f (filter (\<lambda>x. f x \<notin> seen) xs)"
proof -
  have "filter_new f (seen \<union> {}) xs = filter_new f {} (filter (\<lambda>x. f x \<notin> seen) xs)"
    by (rule filter_new_Un)
  then show ?thesis
    by (simp add: first_occurrences_def filter_new_index [where seen = "{}", simplified])
qed

lemma length_assign_rec: "length (assign_rec n used es) = length es"
  by (induction es arbitrary: used) auto

lemma assign_rec_nth:
  "p < length es \<Longrightarrow>
   assign_rec n used es ! p =
     first_occurrences (\<lambda>i. i)
       (filter (\<lambda>i. i \<notin> used \<and> (\<forall>q<p. i \<notin> set (valid_indices n (es ! q))))
          (valid_indices n (es ! p)))"
proof (induction es arbitrary: used p)
  case Nil
  then show ?case by simp
next
  case (Cons e es)
  show ?case
  proof (cases p)
    case 0
    then show ?thesis by (simp add: filter_new_first_occurrences)
  next
    case (Suc p')
    have all_Suc: "\<And>P. (\<forall>q<Suc p'. P q) = (P 0 \<and> (\<forall>q<p'. P (Suc q)))"
      by (metis less_Suc_eq_0_disj Suc_less_eq zero_less_Suc)
    from Cons.prems Suc have "p' < length es" by simp
    from Cons.IH [OF this, of "used \<union> set (valid_indices n e)"] Suc
    show ?thesis
      by (simp add: all_Suc conj_assoc)
  qed
qed

lemma section_loop_first_claims:
  assumes "section_loop all_items kvs [] {} = Inr m" and "distinct (map fst kvs)"
  shows "m = map (\<lambda>p. (fst (kvs ! p),
                 map (\<lambda>i. all_items ! nat i) (first_claims (length all_items) (map snd kvs) p)))
             [0..<length kvs]"
proof -
  let ?es = "map (\<lambda>kv. entries_of (snd kv)) kvs"
  from section_loop_rec [OF assms(1,2)] have
    m: "m = map2 (\<lambda>k ks. (k, map (\<lambda>i. all_items ! nat i) ks)) (map fst kvs)
                  (assign_rec (length all_items) {} ?es)"
    by simp
  show ?thesis
    unfolding m
    by (rule nth_equalityI)
       (simp_all add: length_assign_rec assign_rec_nth first_claims_def)
qed

lemma rank_and_assign_unfold:
  "rank_and_assign_to_sections loads ranking_r all_news =
     (if concat (map snd all_news) = [] then Inr []
      else try_except (ranking_body loads ranking_r (concat (map snd all_news)))
             (\<lambda>e. Inr (simple_distribution (concat (map snd all_news)))))"
  unfolding rank_and_assign_to_sections_def Let_def by (rule refl)

lemma rank_and_assign_empty:
  "concat (map snd all_news) = [] \<Longrightarrow>
     rank_and_assign_to_sections loads ranking_r all_news = Inr []"
  unfolding rank_and_assign_unfold by (rule if_P)

lemma rank_and_assign_nonempty:
  "concat (map snd all_news) \<noteq> [] \<Longrightarrow>
     rank_and_assign_to_sections loads ranking_r all_news =
       try_except (ranking_body loads ranking_r (concat (map snd all_news)))
             (\<lambda>e. Inr (simple_distribution (concat (map snd all_news))))"
  unfolding rank_and_assign_unfold by (rule if_not_P)

lemma twelve_items:
  "concat (map snd twelve_news) =
     [titled ''s0'', titled ''s1'', titled ''s2'', titled ''s3'', titled ''s4'', titled ''s5'',
      titled ''s6'', titled ''s7'', titled ''s8'', titled ''s9'', titled ''s10'', titled ''s11'']"
  by (simp add: twelve_news_def)

lemma rank_and_assign_result:
  "rank_and_assign_to_sections loads ranking_r all_news =
     Inr (if concat (map snd all_news) = [] then []
          else simple_distribution (concat (map snd all_news)))"
  unfolding rank_and_assign_unfold ranking_body_raises try_except_Inl
  by (simp only: if_distrib [of Inr])

text \<open>
  On their own, the loops give the double assignment of the scenario below to the first
  section that claims it.
\<close>

lemma loops_on_double_assignment:
  "section_loop [0..<12] ex_assignments [] {}
     = Inr [(''main-story'', [0]), (''second-story'', [2]), (''third-story'', [3]),
            (''bonus'', [1])]"
  by code_simp

text \<open>
  Claim C5 is not what the code does. The call of the ranking chain raises for every
  input, since the prompt has a replacement field the call does not fill, and the
  handler returns the deterministic distribution: the filtering loops are never reached.
  With twelve items and a model that would list index 2 under \<open>second-story\<close> and under
  \<open>third-story\<close>, the item at index 2 is returned under \<open>third-story\<close>, and
  \<open>second-story\<close> holds the item at index 1.
\<close>

theorem ranking_scenario_falls_back:
  "example_loads (clean_fence ex_ranking) = Some (JObj [(''assignments'', JObj ex_assignments)])
   \<and> rank_and_assign_to_sections example_loads (Inr ex_ranking) twelve_news
       = Inr [(''main-story'', [titled ''s0'']),
              (''main-story-summary'', [titled ''s0'']),
              (''second-story'', [titled ''s1'']),
              (''third-story'', [titled ''s2'']),
              (''trendsetter'', [titled ''s3'', titled ''s4'']),
              (''top-news'', [titled ''s5'', titled ''s6'', titled ''s7'']),
              (''links'', [titled ''s8'', titled ''s9'', titled ''s10''])]"
  by code_simp

text \<open>
  Claim C9 is not what the code does, by the same defect. Whatever the model would
  answer, the keys of the returned map are the seven fixed section keys when there is an
  item, and there is no key when there is none: the keys of the response never reach the
  result.
\<close>

theorem section_keys_are_fixed:
  "\<exists>m. rank_and_assign_to_sections loads ranking_r all_news = Inr m
     \<and> map fst m =
         (if concat (map snd all_news) = [] then []
          else [''main-story'', ''main-story-summary'', ''second-story'', ''third-story'',
                ''trendsetter'', ''top-news'', ''links''])"
  unfolding rank_and_assign_result by (simp add: simple_distribution_def)

section \<open>Positions used at most once\<close>

text \<open>
  Claim C2 does not hold as stated. When the ranking response does not parse, the
  Section Assigner returns the deterministic distribution, which puts the first item
  both under \<open>main-story\<close> and under \<open>main-story-summary\<close>.
\<close>
theorem positions_used_once_counterexample:
  "rank_and_assign_to_sections example_loads (Inr ex_unparsable) [(''seo'', [titled ''A''])]
     = Inr [(''main-story'', [titled ''A'']), (''main-story-summary'', [titled ''A'']),
            (''second-story'', []), (''third-story'', []), (''trendsetter'', []),
            (''top-news'', []), (''links'', [])]
   \<and> rank_and_assign_to_sections example_loads (Inr ex_unparsable) [(''seo'', [0::nat])]
     = Inr [(''main-story'', [0]), (''main-story-summary'', [0]),
            (''second-story'', []), (''third-story'', []), (''trendsetter'', []),
            (''top-news'', []), (''links'', [])]
   \<and> \<not> distinct (concat (map snd
           [(''main-story'', [0::nat]), (''main-story-summary'', [0]),
            (''second-story'', []), (''third-story'', []), (''trendsetter'', []),
            (''top-news'', []), (''links'', [])]))"
  by code_simp

text \<open>
  The filtering loops commute with a function applied to the items, and on the positions
  of the items they put no position in the map twice.
\<close>

lemma valid_indices_range: "i \<in> set (valid_indices n idxs) \<Longrightarrow> 0 \<le> i \<and> nat i < n"
  by (auto simp: valid_indices_def)

lemma on_items_update:
  "AList.update k (map f v) (on_items f si) = on_items f (AList.update k v si)"
  by (induction si) (auto simp: on_items_def)

lemma section_loop_map:
  "section_loop (map f xs) kvs (on_items f si) used =
     (case section_loop xs kvs si used of Inl e \<Rightarrow> Inl e | Inr m \<Rightarrow> Inr (on_items f m))"
proof (induction kvs arbitrary: si used)
  case Nil
  show ?case by simp
next
  case (Cons kv kvs)
  obtain k v where kv: "kv = (k, v)" by (cases kv) auto
  show ?case
  proof (cases "py_iter v")
    case (Inl e)
    then show ?thesis by (simp add: kv bindE_Inl)
  next
    case (Inr idxs)
    let ?ks = "filter_new (\<lambda>i. i) used (valid_indices (length xs) idxs)"
    have "\<forall>i\<in>set ?ks. nat i < length xs"
      using set_filter_new [of "\<lambda>i. i" used "valid_indices (length xs) idxs"]
      by (auto dest!: valid_indices_range)
    then have "map (\<lambda>i. map f xs ! nat i) ?ks = map f (map (\<lambda>i. xs ! nat i) ?ks)"
      by simp
    then have upd: "AList.update k (map (\<lambda>i. map f xs ! nat i) ?ks) (on_items f si)
        = on_items f (AList.update k (map (\<lambda>i. xs ! nat i) ?ks) si)"
      by (simp only: on_items_update)
    show ?thesis
      using Cons.IH [of "AList.update k (map (\<lambda>i. xs ! nat i) ?ks) si"
                         "used \<union> set (valid_indices (length xs) idxs)"]
      by (simp add: kv Inr bindE_Inr index_loop_char upd)
  qed
qed

lemma slice_map: "slice a b (map f xs) = map f (slice a b xs)"
  by (simp add: slice_def take_map drop_map)

lemma simple_distribution_map:
  "simple_distribution (map f xs) = on_items f (simple_distribution xs)"
  by (simp add: simple_distribution_def on_items_def slice_map)

lemma update_distinct_concat:
  assumes "distinct (concat (map snd si))" "distinct v"
    and "set v \<inter> set (concat (map snd si)) = {}"
  shows "distinct (concat (map snd (AList.update k v si)))
       \<and> set (concat (map snd (AList.update k v si))) \<subseteq> set v \<union> set (concat (map snd si))"
  using assms by (induction si) auto

lemma section_loop_distinct:
  assumes "section_loop [0..<n] kvs si used = Inr m"
    and "distinct (concat (map snd si))"
    and "int ` set (concat (map snd si)) \<subseteq> used"
  shows "distinct (concat (map snd m))"
  using assms
proof (induction kvs arbitrary: si used)
  case Nil
  then show ?case by simp
next
  case (Cons kv kvs)
  obtain k v where kv: "kv = (k, v)" by (cases kv) auto
  let ?n = "length [0..<n]"
  from Cons.prems(1) kv obtain idxs where
    step: "section_loop [0..<n] kvs
       (AList.update k (map (\<lambda>i. [0..<n] ! nat i)
           (filter_new (\<lambda>i. i) used (valid_indices ?n idxs))) si)
       (used \<union> set (valid_indices ?n idxs)) = Inr m"
    by (auto simp: bindE_eq_Inr index_loop_char)
  let ?ks = "filter_new (\<lambda>i. i) used (valid_indices ?n idxs)"
  have sub: "set ?ks \<subseteq> set (valid_indices ?n idxs)" by (rule set_filter_new)
  have rng: "\<forall>i\<in>set ?ks. 0 \<le> i \<and> nat i < n"
    using sub valid_indices_range by fastforce
  have new: "map (\<lambda>i. [0..<n] ! nat i) ?ks = map nat ?ks"
    using rng by simp
  have dks: "distinct ?ks"
    using filter_new_distinct [of "\<lambda>i. i" used "valid_indices ?n idxs"] by simp
  have d1: "distinct (map nat ?ks)"
    using dks rng by (auto simp: distinct_map inj_on_def eq_nat_nat_iff)
  have fresh: "\<forall>i\<in>set ?ks. i \<notin> used"
    using filter_new_fresh [of _ "\<lambda>i. i" used "valid_indices ?n idxs"] by blast
  have int_new: "int ` set (map nat ?ks) = set ?ks"
    using rng by force
  have d2: "set (map nat ?ks) \<inter> set (concat (map snd si)) = {}"
  proof (rule ccontr)
    assume "set (map nat ?ks) \<inter> set (concat (map snd si)) \<noteq> {}"
    then obtain x where x: "x \<in> set (map nat ?ks)" "x \<in> set (concat (map snd si))" by blast
    from x(1) int_new have "int x \<in> set ?ks" by blast
    moreover from x(2) Cons.prems(3) have "int x \<in> used" by blast
    ultimately show False using fresh by blast
  qed
  from update_distinct_concat [OF Cons.prems(2) d1 d2, of k] have
    u1: "distinct (concat (map snd (AList.update k (map nat ?ks) si)))" and
    u2: "set (concat (map snd (AList.update k (map nat ?ks) si)))
           \<subseteq> set (map nat ?ks) \<union> set (concat (map snd si))"
    by blast+
  have u3: "int ` set (concat (map snd (AList.update k (map nat ?ks) si)))
          \<subseteq> used \<union> set (valid_indices ?n idxs)"
  proof
    fix y assume "y \<in> int ` set (concat (map snd (AList.update k (map nat ?ks) si)))"
    then obtain x where y: "y = int x"
      and x: "x \<in> set (concat (map snd (AList.update k (map nat ?ks) si)))" by blast
    from x u2 consider "x \<in> set (map nat ?ks)" | "x \<in> set (concat (map snd si))" by blast
    then show "y \<in> used \<union> set (valid_indices ?n idxs)"
    proof cases
      case 1
      with int_new have "int x \<in> set ?ks" by blast
      with sub y show ?thesis by blast
    next
      case 2
      with Cons.prems(3) y show ?thesis by blast
    qed
  qed
  show ?case
    by (rule Cons.IH [OF step [unfolded new] u1 u3])
qed

lemma slice_if: "(if length xs > a then slice a b xs else []) = slice a b xs"
  by (simp add: slice_def)

lemma slice_append: "a \<le> b \<Longrightarrow> b \<le> c \<Longrightarrow> slice a b xs @ slice b c xs = slice a c xs"
proof -
  assume ab: "a \<le> b" and bc: "b \<le> c"
  have "drop b xs = drop (b - a) (drop a xs)" using ab by simp
  moreover have "c - a = (b - a) + (c - b)" using ab bc by simp
  ultimately show ?thesis
    unfolding slice_def by (simp only: take_add)
qed

lemma simple_distribution_summary:
  "map_of (simple_distribution xs) ''main-story-summary''
     = map_of (simple_distribution xs) ''main-story''"
  by (simp add: simple_distribution_def)

lemma simple_distribution_positions:
  "concat (map snd (filter (\<lambda>kv. fst kv \<noteq> ''main-story-summary'') (simple_distribution xs)))
     = take 11 xs"
proof -
  have "concat (map snd (filter (\<lambda>kv. fst kv \<noteq> ''main-story-summary'') (simple_distribution xs)))
      = slice 0 1 xs @ slice 1 2 xs @ slice 2 3 xs @ slice 3 5 xs @ slice 5 8 xs @ slice 8 11 xs"
    unfolding simple_distribution_def slice_if by simp
  also have "\<dots> = slice 0 11 xs"
    by (simp add: slice_append)
  finally show ?thesis by (simp add: slice_def)
qed

text \<open>
  Claim C2, amended. Every result of the Section Assigner is the empty map, or the
  result of the ranking path, or the deterministic distribution, and in each case it is
  the image, position by position, of the result computed on the positions
  \<open>0, ..., n - 1\<close> of the flattened list. On the ranking path no position occurs twice in
  the whole map. In the deterministic distribution no position occurs twice outside
  \<open>main-story-summary\<close>, which repeats the position of \<open>main-story\<close>. Since the
  ranking call raises, a result for a list that is not empty is always the deterministic
  distribution.
\<close>
theorem positions_used_once:
  assumes "rank_and_assign_to_sections loads ranking_r all_news = Inr m"
    and "all_items = concat (map snd all_news)"
  shows "(all_items = [] \<and> m = [])
    \<or> (all_items \<noteq> [] \<and>
         (\<exists>ixs. ranking_body loads ranking_r [0..<length all_items] = Inr ixs
            \<and> m = map (\<lambda>kv. (fst kv, map (\<lambda>i. all_items ! i) (snd kv))) ixs
            \<and> distinct (concat (map snd ixs))))
    \<or> (all_items \<noteq> [] \<and>
         (\<exists>e. ranking_body loads ranking_r [0..<length all_items] = Inl e)
         \<and> m = map (\<lambda>kv. (fst kv, map (\<lambda>i. all_items ! i) (snd kv)))
                 (simple_distribution [0..<length all_items])
         \<and> distinct (concat (map snd
               (filter (\<lambda>kv. fst kv \<noteq> ''main-story-summary'')
                  (simple_distribution [0..<length all_items]))))
         \<and> map_of (simple_distribution [0..<length all_items]) ''main-story-summary''
             = map_of (simple_distribution [0..<length all_items]) ''main-story'')"
proof (cases "all_items = []")
  case True
  with assms(2) have "concat (map snd all_news) = []" by simp
  then have "rank_and_assign_to_sections loads ranking_r all_news = Inr []"
    by (rule rank_and_assign_empty)
  with assms(1) True show ?thesis by simp
next
  case False
  have items: "all_items = map (\<lambda>i. all_items ! i) [0..<length all_items]"
    by (simp add: map_nth)
  have sd: "simple_distribution all_items =
      on_items (\<lambda>i. all_items ! i) (simple_distribution [0..<length all_items])"
    using simple_distribution_map [of "\<lambda>i. all_items ! i" "[0..<length all_items]"]
    by (simp only: items [symmetric])
  from False assms(2) have ne: "concat (map snd all_news) \<noteq> []" by simp
  have "rank_and_assign_to_sections loads ranking_r all_news =
      try_except (ranking_body loads ranking_r all_items)
             (\<lambda>e. Inr (simple_distribution all_items))"
    unfolding assms(2) by (rule rank_and_assign_nonempty [OF ne])
  with assms(1) have "m = simple_distribution all_items"
    by (simp add: ranking_body_raises try_except_Inl)
  with sd have m: "m = on_items (\<lambda>i. all_items ! i) (simple_distribution [0..<length all_items])"
    by simp
  have raised: "\<exists>e. ranking_body loads ranking_r [0..<length all_items] = Inl e"
    by (simp add: ranking_body_raises)
  have d: "distinct (concat (map snd
               (filter (\<lambda>kv. fst kv \<noteq> ''main-story-summary'')
                  (simple_distribution [0..<length all_items]))))"
    unfolding simple_distribution_positions by simp
  show ?thesis
    using False m raised d simple_distribution_summary [of "[0..<length all_items]"]
    by (simp add: on_items_def)
qed

theorem positions_used_once_witness:
  "rank_and_assign_to_sections example_loads (Inr ex_unparsable) twelve_news
       = Inr [(''main-story'', [titled ''s0'']),
              (''main-story-summary'', [titled ''s0'']),
              (''second-story'', [titled ''s1'']),
              (''third-story'', [titled ''s2'']),
              (''trendsetter'', [titled ''s3'', titled ''s4'']),
              (''top-news'', [titled ''s5'', titled ''s6'', titled ''s7'']),
              (''links'', [titled ''s8'', titled ''s9'', titled ''s10''])]
   \<and> distinct (concat (map snd
          (filter (\<lambda>kv. fst kv \<noteq> ''main-story-summary'') (simple_distribution [0..<12]))))
   \<and> map_of (simple_distribution [0..<12]) ''main-story-summary''
       = map_of (simple_distribution [0..<12]) ''main-story''"
proof -
  have r: "rank_and_assign_to_sections example_loads (Inr ex_unparsable) twelve_news
       = Inr [(''main-story'', [titled ''s0'']),
              (''main-story-summary'', [titled ''s0'']),
              (''second-story'', [titled ''s1'']),
              (''third-story'', [titled ''s2'']),
              (''trendsetter'', [titled ''s3'', titled ''s4'']),
              (''top-news'', [titled ''s5'', titled ''s6'', titled ''s7'']),
              (''links'', [titled ''s8'', titled ''s9'', titled ''s10''])]"
    by code_simp
  have len: "length (concat (map snd twelve_news)) = 12"
    by (simp add: twelve_items)
  have ne: "concat (map snd twelve_news) \<noteq> []"
    by (simp add: twelve_items)
  have no: "\<And>ixs. ranking_body example_loads (Inr ex_unparsable) [0..<12] \<noteq> Inr ixs"
    by (simp add: ranking_body_raises)
  have "distinct (concat (map snd
          (filter (\<lambda>kv. fst kv \<noteq> ''main-story-summary'') (simple_distribution [0..<12]))))
   \<and> map_of (simple_distribution [0..<12]) ''main-story-summary''
       = map_of (simple_distribution [0..<12]) ''main-story''"
    using positions_used_once [OF r refl] ne no unfolding len by blast
  with r show ?thesis by simp
qed

section \<open>Cleaning a response before it is parsed\<close>

text \<open>
  Claim C7 does not hold as stated. For a response with an object inside prose that has
  braces of its own, fence cleaning leaves the response as it is, and the text the
  Related-News Searcher hands to the parser runs from the first opening brace to the
  last closing brace: it is not the first balanced span.
\<close>
theorem response_cleaning_counterexample:
  \<open>clean_fence ex_prose = ex_prose
   \<and> clean_related ex_prose = ''{"news": []} (schema {news}''
   \<and> first_balanced_span ex_prose = Some ''{"news": []}''\<close>
  by code_simp

lemma dropWhile_all: "\<forall>c\<in>set ws. P c \<Longrightarrow> dropWhile P (ws @ ys) = dropWhile P ys"
  by (induction ws) auto

lemma lstrip_spaces:
  "\<forall>c\<in>set ws. is_space c \<Longrightarrow> \<not> is_space x \<Longrightarrow> lstrip (ws @ x # xs) = x # xs"
  by (simp add: lstrip_def dropWhile_all)

lemma rstrip_spaces:
  "\<forall>c\<in>set ws. is_space c \<Longrightarrow> \<not> is_space x \<Longrightarrow> rstrip (xs @ x # ws) = xs @ [x]"
proof -
  assume ws: "\<forall>c\<in>set ws. is_space c" and x: "\<not> is_space x"
  from ws have "\<forall>c\<in>set (rev ws). is_space c" by simp
  then have "dropWhile is_space (rev ws @ x # rev xs) = dropWhile is_space (x # rev xs)"
    by (rule dropWhile_all)
  with x show ?thesis by (simp add: rstrip_def)
qed

lemma strip_spaces:
  assumes "\<forall>c\<in>set pre. is_space c" "\<forall>c\<in>set post. is_space c"
    and "\<not> is_space x" "\<not> is_space y"
  shows "strip (pre @ x # xs @ y # post) = x # xs @ [y]"
proof -
  have "lstrip (pre @ x # xs @ y # post) = x # xs @ y # post"
    by (rule lstrip_spaces [OF assms(1,3)])
  moreover have "rstrip ((x # xs) @ y # post) = (x # xs) @ [y]"
    by (rule rstrip_spaces [OF assms(2,4)])
  ultimately show ?thesis by (simp add: strip_def)
qed

lemma not_space_backtick: "\<not> is_space (CHR ''`'')"
  by (simp add: is_space_def)

lemma not_space_lbrace: "\<not> is_space (CHR ''{'')"
  by (simp add: is_space_def)

lemma not_space_rbrace: "\<not> is_space (CHR ''}'')"
  by (simp add: is_space_def)

lemma not_space_j: "\<not> is_space (CHR ''j'')"
  by (simp add: is_space_def)

lemma fenced_object:
  assumes pre: "\<forall>c\<in>set pre. is_space c" and post: "\<forall>c\<in>set post. is_space c"
    and ws1: "\<forall>c\<in>set ws1. is_space c" and ws2: "\<forall>c\<in>set ws2. is_space c"
    and tag: "tag = [] \<or> tag = ''json''"
  shows "clean_fence (pre @ ''```'' @ tag @ ws1 @ (CHR ''{'' # mid @ ''}'') @ ws2 @ ''```'' @ post)
           = CHR ''{'' # mid @ ''}''"
proof -
  let ?B = "CHR ''{'' # mid @ ''}''"
  let ?X = "''``'' @ tag @ ws1 @ ?B @ ws2 @ ''``''"
  have s: "pre @ ''```'' @ tag @ ws1 @ ?B @ ws2 @ ''```'' @ post
         = pre @ CHR ''`'' # ?X @ CHR ''`'' # post"
    by simp
  have st: "strip (pre @ ''```'' @ tag @ ws1 @ ?B @ ws2 @ ''```'' @ post)
         = ''```'' @ tag @ ws1 @ ?B @ ws2 @ ''```''"
    unfolding s strip_spaces [OF pre post not_space_backtick not_space_backtick] by simp
  have nj: "\<not> startswith (ws1 @ ?B @ ws2 @ ''```'') ''json''"
  proof (cases ws1)
    case Nil
    then show ?thesis by (simp add: startswith_def)
  next
    case (Cons c cs)
    with ws1 have "is_space c" by simp
    then have "c \<noteq> CHR ''j''" using not_space_j by auto
    then show ?thesis using Cons by (simp add: startswith_def)
  qed
  have lead: "sub_leading_fence (''```'' @ tag @ ws1 @ ?B @ ws2 @ ''```'') = ?B @ ws2 @ ''```''"
  proof -
    have l: "lstrip (ws1 @ CHR ''{'' # (mid @ ''}'' @ ws2 @ ''```'')) = CHR ''{'' # (mid @ ''}'' @ ws2 @ ''```'')"
      by (rule lstrip_spaces [OF ws1 not_space_lbrace])
    from tag show ?thesis
    proof
      assume "tag = []"
      then show ?thesis using nj l by (simp add: sub_leading_fence_def startswith_def)
    next
      assume "tag = ''json''"
      then show ?thesis using l by (simp add: sub_leading_fence_def startswith_def)
    qed
  qed
  have trail: "sub_trailing_fence (?B @ ws2 @ ''```'') = ?B"
  proof -
    have e: "endswith (?B @ ws2 @ ''```'') ''```''" by (simp add: endswith_def)
    have t: "take (length (?B @ ws2 @ ''```'') - 3) (?B @ ws2 @ ''```'') = ?B @ ws2" by simp
    have r: "rstrip ((CHR ''{'' # mid) @ CHR ''}'' # ws2) = (CHR ''{'' # mid) @ ''}''"
      by (rule rstrip_spaces [OF ws2 not_space_rbrace])
    show ?thesis
      unfolding sub_trailing_fence_def using e r by (simp only: t if_True) simp
  qed
  show ?thesis
    unfolding clean_fence_def Let_def st
    using lead trail by (simp add: startswith_def)
qed

lemma search_braces_span:
  assumes "CHR ''{'' \<notin> set p" "CHR ''}'' \<notin> set q"
  shows "search_braces (p @ CHR ''{'' # mid @ CHR ''}'' # q) = Some (CHR ''{'' # mid @ ''}'')"
proof -
  have "\<forall>c\<in>set p. c \<noteq> CHR ''{''" using assms(1) by auto
  then have "dropWhile (\<lambda>c. c \<noteq> CHR ''{'') (p @ CHR ''{'' # mid @ CHR ''}'' # q)
         = dropWhile (\<lambda>c. c \<noteq> CHR ''{'') (CHR ''{'' # mid @ CHR ''}'' # q)"
    by (rule dropWhile_all)
  then have a: "dropWhile (\<lambda>c. c \<noteq> CHR ''{'') (p @ CHR ''{'' # mid @ CHR ''}'' # q)
         = CHR ''{'' # mid @ CHR ''}'' # q"
    by simp
  have "\<forall>c\<in>set (rev q). c \<noteq> CHR ''}''" using assms(2) by auto
  then have "dropWhile (\<lambda>c. c \<noteq> CHR ''}'') (rev q @ CHR ''}'' # rev mid @ ''{'')
         = dropWhile (\<lambda>c. c \<noteq> CHR ''}'') (CHR ''}'' # rev mid @ ''{'')"
    by (rule dropWhile_all)
  then have b: "dropWhile (\<lambda>c. c \<noteq> CHR ''}'') (rev (CHR ''{'' # mid @ CHR ''}'' # q))
         = CHR ''}'' # rev mid @ ''{''"
    by simp
  show ?thesis
    unfolding search_braces_def Let_def a b by simp
qed

text \<open>
  Claim C7, amended. A response that is an object between a leading fence (with or
  without the tag \<open>json\<close>) and a trailing fence, with whitespace around the fences, is
  cleaned to the object itself. The Related-News Searcher then takes, from the cleaned
  text, the span from the first opening brace to the last closing brace. The result of
  the Fallback Generator, of the Category Searcher (in each of its three responses) and
  of the Section Assigner depends on a response only through its fence-cleaned text, and
  the result of the Related-News Searcher depends on the related response only through
  the extracted span.
\<close>
theorem response_cleaning:
  "((\<forall>c\<in>set (pre @ ws1 @ ws2 @ post). is_space c) \<and> (tag = [] \<or> tag = ''json'')
      \<longrightarrow> clean_fence (pre @ ''```'' @ tag @ ws1 @ (CHR ''{'' # mid @ ''}'') @ ws2 @ ''```'' @ post)
            = CHR ''{'' # mid @ ''}'')
   \<and> (clean_fence t = p @ CHR ''{'' # inner @ CHR ''}'' # q
        \<and> CHR ''{'' \<notin> set p \<and> CHR ''}'' \<notin> set q
      \<longrightarrow> clean_related t = CHR ''{'' # inner @ ''}'')
   \<and> (clean_fence a = clean_fence b
      \<longrightarrow> fetch_ai_generated_news loads cat num_items (Inr a)
            = fetch_ai_generated_news loads cat num_items (Inr b)
        \<and> fetch_news_with_catchy_titles loads cat num_items (Inr a) titles_r fallback_r
            = fetch_news_with_catchy_titles loads cat num_items (Inr b) titles_r fallback_r
        \<and> fetch_news_with_catchy_titles loads cat num_items search_r (Inr a) fallback_r
            = fetch_news_with_catchy_titles loads cat num_items search_r (Inr b) fallback_r
        \<and> fetch_news_with_catchy_titles loads cat num_items search_r titles_r (Inr a)
            = fetch_news_with_catchy_titles loads cat num_items search_r titles_r (Inr b)
        \<and> rank_and_assign_to_sections loads (Inr a) all_news
            = rank_and_assign_to_sections loads (Inr b) all_news)
   \<and> (clean_related a' = clean_related b'
      \<longrightarrow> search_news_for_section loads md5 section_title section_description num_items
              (Inr a') cat_r
            = search_news_for_section loads md5 section_title section_description num_items
              (Inr b') cat_r)"
proof (intro conjI impI)
  assume "(\<forall>c\<in>set (pre @ ws1 @ ws2 @ post). is_space c) \<and> (tag = [] \<or> tag = ''json'')"
  then show "clean_fence (pre @ ''```'' @ tag @ ws1 @ (CHR ''{'' # mid @ ''}'') @ ws2 @ ''```'' @ post)
            = CHR ''{'' # mid @ ''}''"
    by (intro fenced_object) auto
next
  assume "clean_fence t = p @ CHR ''{'' # inner @ CHR ''}'' # q
        \<and> CHR ''{'' \<notin> set p \<and> CHR ''}'' \<notin> set q"
  then show "clean_related t = CHR ''{'' # inner @ ''}''"
    by (simp add: clean_related_def search_braces_span)
next
  assume e: "clean_fence a = clean_fence b"
  have fa: "fetch_ai_generated_news loads cat num_items (Inr a)
            = fetch_ai_generated_news loads cat num_items (Inr b)"
    by (simp add: fetch_ai_generated_news_eq bindE_Inr e)
  then show "fetch_ai_generated_news loads cat num_items (Inr a)
            = fetch_ai_generated_news loads cat num_items (Inr b)" .
  have fb: "\<And>r. fetch_news_with_catchy_titles loads cat num_items r titles_r (Inr a)
            = fetch_news_with_catchy_titles loads cat num_items r titles_r (Inr b)"
    unfolding fetch_news_with_catchy_titles_def search_body_eq fa by (rule refl)
  show "fetch_news_with_catchy_titles loads cat num_items (Inr a) titles_r fallback_r
            = fetch_news_with_catchy_titles loads cat num_items (Inr b) titles_r fallback_r"
    unfolding fetch_news_with_catchy_titles_def search_body_eq bindE_Inr e by (rule refl)
  show "fetch_news_with_catchy_titles loads cat num_items search_r (Inr a) fallback_r
            = fetch_news_with_catchy_titles loads cat num_items search_r (Inr b) fallback_r"
    unfolding fetch_news_with_catchy_titles_def search_body_eq bindE_Inr e by (rule refl)
  show "fetch_news_with_catchy_titles loads cat num_items search_r titles_r (Inr a)
            = fetch_news_with_catchy_titles loads cat num_items search_r titles_r (Inr b)"
    by (rule fb)
  show "rank_and_assign_to_sections loads (Inr a) all_news
            = rank_and_assign_to_sections loads (Inr b) all_news"
    by (simp add: rank_and_assign_result)
next
  assume e: "clean_related a' = clean_related b'"
  show "search_news_for_section loads md5 section_title section_description num_items
              (Inr a') cat_r
            = search_news_for_section loads md5 section_title section_description num_items
              (Inr b') cat_r"
    by (simp add: search_news_for_section_def related_body_eq bindE_Inr e)
qed

theorem response_cleaning_witness:
  \<open>clean_fence ex_fenced = ex_search_empty
   \<and> clean_fence ex_prose = ''Result: '' @ CHR ''{'' # ''"news": []} (schema {news'' @ CHR ''}'' # '')''
   \<and> clean_related ex_prose = ''{"news": []} (schema {news}''
   \<and> clean_fence ex_fenced = clean_fence ex_search_empty
   \<and> fetch_news_with_catchy_titles example_loads ''seo'' 4
         (Inr ex_fenced) (Inr ex_titles) (Inr ex_generated)
       = fetch_news_with_catchy_titles example_loads ''seo'' 4
         (Inr ex_search_empty) (Inr ex_titles) (Inr ex_generated)
   \<and> clean_related (''Here you go: '' @ ex_related) = clean_related ex_related
   \<and> search_news_for_section example_loads (\<lambda>s. s) ''Top News''
         (''Find news related to: '' @ [CHR 0x22] @ ''core update'' @ [CHR 0x22]) 4
         (Inr (''Here you go: '' @ ex_related))
         (\<lambda>c. (Inr ex_search, Inr ex_titles, Inr ex_generated))
       = search_news_for_section example_loads (\<lambda>s. s) ''Top News''
         (''Find news related to: '' @ [CHR 0x22] @ ''core update'' @ [CHR 0x22]) 4
         (Inr ex_related)
         (\<lambda>c. (Inr ex_search, Inr ex_titles, Inr ex_generated))\<close>
proof -
  have sp: "\<forall>c\<in>set ([] @ [CHR 0x0A] @ [CHR 0x0A] @ []). is_space c"
    by (simp add: is_space_def)
  have cp: \<open>clean_fence ex_prose
      = ''Result: '' @ CHR ''{'' # ''"news": []} (schema {news'' @ CHR ''}'' # '')''\<close>
    by code_simp
  have np: "CHR ''{'' \<notin> set ''Result: ''" "CHR ''}'' \<notin> set '')''"
    by simp_all
  have ce: "clean_fence ex_fenced = clean_fence ex_search_empty"
    by code_simp
  have cr: "clean_related (''Here you go: '' @ ex_related) = clean_related ex_related"
    by code_simp
  note inst = response_cleaning
      [where pre = "[]" and ?ws1.0 = "[CHR 0x0A]" and ?ws2.0 = "[CHR 0x0A]" and post = "[]"
         and tag = "''json''" and mid = \<open>''"news": []''\<close>
         and t = ex_prose and p = "''Result: ''"
         and inner = \<open>''"news": []} (schema {news''\<close> and q = "'')''"
         and a = ex_fenced and b = ex_search_empty
         and loads = example_loads and cat = "''seo''" and num_items = 4
         and titles_r = "Inr ex_titles" and fallback_r = "Inr ex_generated"
         and a' = "''Here you go: '' @ ex_related" and b' = ex_related
         and ?md5.0 = "\<lambda>s. s" and section_title = "''Top News''"
         and section_description =
           "''Find news related to: '' @ [CHR 0x22] @ ''core update'' @ [CHR 0x22]"
         and cat_r = "\<lambda>c. (Inr ex_search, Inr ex_titles, Inr ex_generated)"
         and search_r = "Inr ex_search" and all_news = twelve_news]
  note i1 = inst [THEN conjunct1]
    and i2 = inst [THEN conjunct2, THEN conjunct1]
    and i3 = inst [THEN conjunct2, THEN conjunct2, THEN conjunct1]
    and i4 = inst [THEN conjunct2, THEN conjunct2, THEN conjunct2]
  have c1: "clean_fence ex_fenced = ex_search_empty"
    using i1 sp by (simp add: ex_fenced_def ex_search_empty_def)
  have c2: \<open>clean_related ex_prose = ''{"news": []} (schema {news}''\<close>
    using i2 cp np by simp
  have c3: "fetch_news_with_catchy_titles example_loads ''seo'' 4
         (Inr ex_fenced) (Inr ex_titles) (Inr ex_generated)
       = fetch_news_with_catchy_titles example_loads ''seo'' 4
         (Inr ex_search_empty) (Inr ex_titles) (Inr ex_generated)"
    using i3 ce by blast
  have c4: "search_news_for_section example_loads (\<lambda>s. s) ''Top News''
         (''Find news related to: '' @ [CHR 0x22] @ ''core update'' @ [CHR 0x22]) 4
         (Inr (''Here you go: '' @ ex_related))
         (\<lambda>c. (Inr ex_search, Inr ex_titles, Inr ex_generated))
       = search_news_for_section example_loads (\<lambda>s. s) ''Top News''
         (''Find news related to: '' @ [CHR 0x22] @ ''core update'' @ [CHR 0x22]) 4
         (Inr ex_related)
         (\<lambda>c. (Inr ex_search, Inr ex_titles, Inr ex_generated))"
    using i4 cr by blast
  show ?thesis
    using c1 cp c2 ce c3 cr c4 by blast
qed

end
